theory Spec2Isabelle
  imports Complex_Main "HOL-Library.Word"
begin

section \<open>JavaScript numbers, as far as the shard engine uses them\<close>

text \<open>
  The engine of \<^verbatim>\<open>ml/shard-engine.ts\<close> computes on JavaScript numbers held in
  \<^verbatim>\<open>Float32Array\<close>s. A number is \<open>NaN\<close>, an infinity or a finite real: the finite
  numbers of the language are the reals of the binary64 format of IEEE 754, those that
  a \<^verbatim>\<open>Float32Array\<close> holds the reals of binary32. Zero has no sign, and reading a typed
  array out of range, which gives \<^verbatim>\<open>undefined\<close> in the source, gives \<open>NaN\<close>: every
  place of the engine that reads an element uses it in arithmetic or stores it into a
  \<^verbatim>\<open>Float32Array\<close>, and both turn \<^verbatim>\<open>undefined\<close> into \<open>NaN\<close>.
\<close>

datatype number = NaN | NegInf | PosInf | Fin real

subsection \<open>Rounding\<close>

text \<open>The integer nearest to \<open>x\<close>, the even one of the two when \<open>x\<close> lies half way.\<close>

definition round_even :: "real \<Rightarrow> int" where
  "round_even x =
     (let f = \<lfloor>x\<rfloor>; d = x - of_int f
      in if d < 1 / 2 then f else if 1 / 2 < d then f + 1 else if even f then f else f + 1)"

text \<open>
  Rounding to nearest in a binary format with \<open>p\<close> significant bits and exponents from
  \<open>emin\<close> to \<open>emax\<close>: the representable numbers around \<open>x\<close> are the multiples of
  \<open>2\<^sup>e\<close>, where \<open>e\<close> is the exponent of \<open>x\<close> less \<open>p - 1\<close> and at least
  \<open>emin - (p - 1)\<close> (the subnormal range); \<open>x\<close> goes to the nearest of them, to the one
  with an even multiplier from half way, and to an infinity when that reaches
  \<open>2\<^sup>e\<^sup>m\<^sup>a\<^sup>x\<^sup>+\<^sup>1\<close>.
\<close>

definition fround :: "nat \<Rightarrow> int \<Rightarrow> int \<Rightarrow> real \<Rightarrow> number" where
  "fround p emin emax x =
     (if x = 0 then Fin 0
      else
        (let e = max (\<lfloor>log 2 \<bar>x\<bar>\<rfloor> - (int p - 1)) (emin - (int p - 1));
             y = of_int (round_even (x / 2 powi e)) * 2 powi e
         in if 2 powi (emax + 1) \<le> \<bar>y\<bar> then (if x < 0 then NegInf else PosInf) else Fin y))"

definition round64 :: "real \<Rightarrow> number" where
  "round64 = fround 53 (- 1022) 1023"

definition round32 :: "real \<Rightarrow> number" where
  "round32 = fround 24 (- 126) 127"

text \<open>The conversion of a number to the element type of a \<^verbatim>\<open>Float32Array\<close>.\<close>

fun to_float32 :: "number \<Rightarrow> number" where
  "to_float32 (Fin r) = round32 r"
| "to_float32 x = x"

subsection \<open>Arithmetic\<close>

text \<open>
  \<^verbatim>\<open>+\<close> and \<^verbatim>\<open>*\<close> give the binary64 number nearest to the exact sum and product.
  (The quotient, the square root, the exponential and the hyperbolic tangent are kept
  as the reals they approximate: the theorems on arithmetic below concern sums and
  products, and the language leaves the last two functions to the engine.)
\<close>

fun is_neg :: "number \<Rightarrow> bool" where
  "is_neg NegInf = True"
| "is_neg (Fin a) = (a < 0)"
| "is_neg _ = False"

fun is_zero :: "number \<Rightarrow> bool" where
  "is_zero (Fin a) = (a = 0)"
| "is_zero _ = False"

fun js_add :: "number \<Rightarrow> number \<Rightarrow> number" where
  "js_add (Fin a) (Fin b) = round64 (a + b)"
| "js_add NaN _ = NaN"
| "js_add _ NaN = NaN"
| "js_add PosInf NegInf = NaN"
| "js_add NegInf PosInf = NaN"
| "js_add PosInf _ = PosInf"
| "js_add _ PosInf = PosInf"
| "js_add NegInf _ = NegInf"
| "js_add _ NegInf = NegInf"

fun js_neg :: "number \<Rightarrow> number" where
  "js_neg NaN = NaN"
| "js_neg NegInf = PosInf"
| "js_neg PosInf = NegInf"
| "js_neg (Fin a) = Fin (- a)"

definition js_sub :: "number \<Rightarrow> number \<Rightarrow> number" where
  "js_sub x y = js_add x (js_neg y)"

fun js_mul :: "number \<Rightarrow> number \<Rightarrow> number" where
  "js_mul (Fin a) (Fin b) = round64 (a * b)"
| "js_mul NaN _ = NaN"
| "js_mul _ NaN = NaN"
| "js_mul x y =
     (if is_zero x \<or> is_zero y then NaN
      else if is_neg x = is_neg y then PosInf else NegInf)"

fun js_div :: "number \<Rightarrow> number \<Rightarrow> number" where
  "js_div (Fin a) (Fin b) =
     (if b \<noteq> 0 then Fin (a / b)
      else if a = 0 then NaN else if 0 < a then PosInf else NegInf)"
| "js_div NaN _ = NaN"
| "js_div _ NaN = NaN"
| "js_div (Fin a) _ = Fin 0"
| "js_div x (Fin b) = (if is_neg x = (b < 0) then PosInf else NegInf)"
| "js_div _ _ = NaN"

fun js_exp :: "number \<Rightarrow> number" where
  "js_exp NaN = NaN"
| "js_exp NegInf = Fin 0"
| "js_exp PosInf = PosInf"
| "js_exp (Fin a) = Fin (exp a)"

fun js_tanh :: "number \<Rightarrow> number" where
  "js_tanh NaN = NaN"
| "js_tanh NegInf = Fin (- 1)"
| "js_tanh PosInf = Fin 1"
| "js_tanh (Fin a) = Fin (tanh a)"

fun js_sqrt :: "number \<Rightarrow> number" where
  "js_sqrt (Fin a) = (if a < 0 then NaN else Fin (sqrt a))"
| "js_sqrt PosInf = PosInf"
| "js_sqrt _ = NaN"

text \<open>\<^verbatim>\<open>x > y\<close>: false as soon as one side is \<open>NaN\<close>.\<close>

fun js_gt :: "number \<Rightarrow> number \<Rightarrow> bool" where
  "js_gt NaN _ = False"
| "js_gt _ NaN = False"
| "js_gt (Fin a) (Fin b) = (b < a)"
| "js_gt PosInf y = (y \<noteq> PosInf)"
| "js_gt x NegInf = (x \<noteq> NegInf)"
| "js_gt _ _ = False"

text \<open>\<^verbatim>\<open>Math.max(x, y)\<close>: \<open>NaN\<close> as soon as one argument is.\<close>

fun js_max :: "number \<Rightarrow> number \<Rightarrow> number" where
  "js_max NaN _ = NaN"
| "js_max _ NaN = NaN"
| "js_max x y = (if js_gt y x then y else x)"

text \<open>\<^verbatim>\<open>Math.round(x)\<close>: the integer nearest to \<open>x\<close>, a tie going up.\<close>

fun js_round :: "number \<Rightarrow> number" where
  "js_round (Fin a) = Fin (of_int \<lfloor>a + 1 / 2\<rfloor>)"
| "js_round x = x"

fun js_floor :: "number \<Rightarrow> number" where
  "js_floor (Fin a) = Fin (of_int \<lfloor>a\<rfloor>)"
| "js_floor x = x"

subsection \<open>Typed arrays\<close>

text \<open>
  An element read \<^verbatim>\<open>xs[i]\<close> of a typed array, used as a number. The index is a
  number of the source: only a non-negative integer below the length names an element.
\<close>

fun elem :: "number list \<Rightarrow> number \<Rightarrow> number" where
  "elem xs (Fin r) =
     (if r = of_int \<lfloor>r\<rfloor> \<and> 0 \<le> r \<and> r < real (length xs) then xs ! nat \<lfloor>r\<rfloor> else NaN)"
| "elem xs _ = NaN"

text \<open>
  An element write \<^verbatim>\<open>xs[i] = v\<close> of a \<^verbatim>\<open>Float32Array\<close>: the value is converted to
  the element type, and a write outside the array changes nothing.
\<close>

fun store :: "number list \<Rightarrow> number \<Rightarrow> number \<Rightarrow> number list" where
  "store xs (Fin r) v =
     (if r = of_int \<lfloor>r\<rfloor> \<and> 0 \<le> r then xs[nat \<lfloor>r\<rfloor> := to_float32 v] else xs)"
| "store xs _ v = xs"

text \<open>A loop counter, as the number it is in the source.\<close>

definition num :: "nat \<Rightarrow> number" where
  "num k = Fin (real k)"

text \<open>
  The number of rounds of \<^verbatim>\<open>for (let k = 0; k < bound; k++)\<close>: none when the bound is
  \<open>NaN\<close> (an \<^verbatim>\<open>undefined\<close> dimension) or not positive. Shape entries are integers, so
  a bound is never \<open>PosInf\<close> where a loop is reached: the kernel size of a convolution
  is infinite only when a channel count is zero, and then the loop over that channel
  count has no round. (A counter is exact up to \<open>2\<^sup>5\<^sup>3\<close>, where counting stops
  in the source; the theorems on the dense layer keep their bounds under it.)
\<close>

fun rounds :: "number \<Rightarrow> nat" where
  "rounds (Fin r) = nat \<lceil>r\<rceil>"
| "rounds _ = 0"

section \<open>Errors\<close>

text \<open>
  What the engine can throw: the \<^verbatim>\<open>Error\<close> of \<^verbatim>\<open>NeuralLayer.forward\<close> for a layer
  type it does not know, the \<^verbatim>\<open>RangeError\<close> of \<^verbatim>\<open>new Float32Array\<close> (a negative
  length, a length beyond what the engine allocates, a buffer whose byte length is no
  multiple of four) and the \<^verbatim>\<open>InvalidCharacterError\<close> of \<^verbatim>\<open>atob\<close>. The source
  defines no other error.
\<close>

datatype error = UnsupportedLayerType string | RangeError | InvalidCharacterError

section \<open>The browser\<close>

type_synonym byte = "8 word"

text \<open>
  What the browser provides and the source only calls: the SHA-256 of
  \<^verbatim>\<open>crypto.subtle.digest\<close>, \<^verbatim>\<open>TextEncoder.encode\<close>, \<^verbatim>\<open>atob\<close> (\<open>None\<close> when it
  throws), \<^verbatim>\<open>JSON.stringify\<close> on a prediction (declared below, hence the type
  parameter), the four bytes of a \<^verbatim>\<open>Float32Array\<close> element in both directions, the
  greatest length with which the engine allocates a typed array, the text of a number
  that is no integer or lies beyond \<open>2\<^sup>5\<^sup>3\<close> (\<^verbatim>\<open>Number.prototype.toString\<close> then
  prints the shortest digits that give the number back, with an exponent from
  \<open>10\<^sup>2\<^sup>1\<close> on), and the order in which \<^verbatim>\<open>Array.prototype.sort\<close> leaves the
  entries of a prediction when its comparison function is inconsistent, which the
  language leaves to the engine.
\<close>

record 'p platform =
  digest :: "byte list \<Rightarrow> byte list"
  encode :: "string \<Rightarrow> byte list"
  atob :: "string \<Rightarrow> string option"
  stringify :: "'p \<Rightarrow> string"
  float32_bytes :: "number \<Rightarrow> byte list"
  float32_of_bytes :: "byte list \<Rightarrow> number"
  maxLength :: nat
  number_text :: "real \<Rightarrow> string"
  engine_sort :: "(number \<times> nat) list \<Rightarrow> (number \<times> nat) list"

text \<open>
  \<^verbatim>\<open>new Float32Array(n)\<close>: the length is truncated to an integer, \<open>NaN\<close> counts as
  zero, a negative or infinite length and a length beyond the limit of the engine
  throw; the elements are zero.
\<close>

fun new_Float32Array :: "('p, 'x) platform_scheme \<Rightarrow> number \<Rightarrow> error + number list" where
  "new_Float32Array P NaN = Inr []"
| "new_Float32Array P (Fin r) =
     (if r \<le> - 1 \<or> maxLength P < nat \<lfloor>r\<rfloor> then Inl RangeError
      else Inr (replicate (nat \<lfloor>r\<rfloor>) (Fin 0)))"
| "new_Float32Array P _ = Inl RangeError"

section \<open>NeuralLayer\<close>

text \<open>
  The fields of \<^verbatim>\<open>NeuralLayerConfig\<close> and of \<^verbatim>\<open>NeuralLayer\<close>. Shape entries are
  taken to be integers; a shape may be too short, and then the missing dimension is
  \<^verbatim>\<open>undefined\<close> in the source and \<open>NaN\<close> in the arithmetic of the model.
\<close>

record neural_layer =
  name :: string
  type :: string
  weights :: "number list"
  biases :: "number list"
  inputShape :: "int list"
  outputShape :: "int list"
  activation :: string

text \<open>
  The constructor copies the fields of the configuration, the weights and biases into
  \<^verbatim>\<open>Float32Array\<close>s. (The arrays of a configuration are there already, so their
  lengths are within what the engine allocates.)
\<close>

definition NeuralLayer :: "neural_layer \<Rightarrow> neural_layer" where
  "NeuralLayer config =
     config\<lparr>weights := map to_float32 (weights config), biases := map to_float32 (biases config)\<rparr>"

definition dim :: "int list \<Rightarrow> nat \<Rightarrow> number" where
  "dim shp k = (if k < length shp then Fin (of_int (shp ! k)) else NaN)"

text \<open>\<^verbatim>\<open>shape[shape.length - 1]\<close>\<close>

definition lastDim :: "int list \<Rightarrow> number" where
  "lastDim shp = (if shp = [] then NaN else Fin (of_int (last shp)))"

subsection \<open>Dense layer\<close>

text \<open>
  The inner loop of \<^verbatim>\<open>denseForward\<close> for the output index \<open>o\<close>: \<open>sum\<close> starts at
  \<^verbatim>\<open>this.biases[o]\<close> and takes \<^verbatim>\<open>input[i] * this.weights[o * inputSize + i]\<close> for
  \<open>i\<close> from 0 up.
\<close>

definition dense_sum :: "neural_layer \<Rightarrow> number list \<Rightarrow> number \<Rightarrow> nat \<Rightarrow> number" where
  "dense_sum L input inputSize o' =
     foldl (\<lambda>sum i. js_add sum
              (js_mul (elem input (num i))
                 (elem (weights L) (js_add (js_mul (num o') inputSize) (num i)))))
       (elem (biases L) (num o')) [0..<rounds inputSize]"

definition denseForward ::
  "('p, 'x) platform_scheme \<Rightarrow> neural_layer \<Rightarrow> number list \<Rightarrow> error + number list" where
  "denseForward P L input =
     (let inputSize = lastDim (inputShape L);
          outputSize = lastDim (outputShape L)
      in case new_Float32Array P outputSize of
           Inl e \<Rightarrow> Inl e
         | Inr output \<Rightarrow>
             Inr (foldl (\<lambda>out o'. store out (num o') (dense_sum L input inputSize o'))
                    output [0..<rounds outputSize]))"

subsection \<open>Convolution\<close>

text \<open>
  \<^verbatim>\<open>conv2dForward\<close>: stride 1, padding 0, the kernel size the square root of
  \<^verbatim>\<open>weights.length / (outChannels * inChannels)\<close>; a tap outside the input is skipped.
  Indices are computed in the numbers of the source, so that a kernel size that is no
  integer reads \<open>NaN\<close> where its index is no integer.
\<close>

definition idx3 :: "number \<Rightarrow> number \<Rightarrow> number \<Rightarrow> number \<Rightarrow> number \<Rightarrow> number \<Rightarrow> number \<Rightarrow> number" where
  \<comment> \<open>\<^verbatim>\<open>((a * m + b) * n + c) * p + d\<close>\<close>
  "idx3 a m b n c p d = js_add (js_mul (js_add (js_mul (js_add (js_mul a m) b) n) c) p) d"

definition js_lt :: "number \<Rightarrow> number \<Rightarrow> bool" where
  "js_lt x y = js_gt y x"

definition js_ge :: "number \<Rightarrow> number \<Rightarrow> bool" where
  \<comment> \<open>\<^verbatim>\<open>x >= y\<close>, false with a \<open>NaN\<close>\<close>
  "js_ge x y = (x \<noteq> NaN \<and> y \<noteq> NaN \<and> \<not> js_gt y x)"

definition conv_sum ::
  "neural_layer \<Rightarrow> number list \<Rightarrow> nat \<Rightarrow> nat \<Rightarrow> nat \<Rightarrow> nat \<Rightarrow> number" where
  "conv_sum L input b oc oh ow =
     (let inHeight = dim (inputShape L) 1; inWidth = dim (inputShape L) 2;
          inChannels = dim (inputShape L) 3; outChannels = dim (outputShape L) 3;
          kernelSize = js_sqrt (js_div (num (length (weights L))) (js_mul outChannels inChannels))
      in foldl (\<lambda>sum ic.
           foldl (\<lambda>sum kh.
             foldl (\<lambda>sum kw.
               (let ih = js_sub (js_add (js_mul (num oh) (Fin 1)) (num kh)) (Fin 0);
                    iw = js_sub (js_add (js_mul (num ow) (Fin 1)) (num kw)) (Fin 0)
                in if js_ge ih (Fin 0) \<and> js_lt ih inHeight \<and> js_ge iw (Fin 0) \<and> js_lt iw inWidth
                   then js_add sum
                          (js_mul (elem input (idx3 (num b) inHeight ih inWidth iw inChannels (num ic)))
                             (elem (weights L)
                                (idx3 (num oc) inChannels (num ic) kernelSize (num kh) kernelSize (num kw))))
                   else sum))
               sum [0..<rounds kernelSize])
             sum [0..<rounds kernelSize])
           (elem (biases L) (num oc)) [0..<rounds inChannels])"

definition conv2dForward ::
  "('p, 'x) platform_scheme \<Rightarrow> neural_layer \<Rightarrow> number list \<Rightarrow> error + number list" where
  "conv2dForward P L input =
     (let batch = dim (inputShape L) 0;
          outHeight = dim (outputShape L) 1; outWidth = dim (outputShape L) 2;
          outChannels = dim (outputShape L) 3
      in case new_Float32Array P (js_mul (js_mul (js_mul batch outHeight) outWidth) outChannels) of
           Inl e \<Rightarrow> Inl e
         | Inr output \<Rightarrow>
             Inr (foldl (\<lambda>out b.
                    foldl (\<lambda>out oc.
                      foldl (\<lambda>out oh.
                        foldl (\<lambda>out ow.
                          store out
                            (idx3 (num b) outHeight (num oh) outWidth (num ow) outChannels (num oc))
                            (conv_sum L input b oc oh ow))
                          out [0..<rounds outWidth])
                        out [0..<rounds outHeight])
                      out [0..<rounds outChannels])
                    output [0..<rounds batch]))"

subsection \<open>Max pooling\<close>

text \<open>\<^verbatim>\<open>maxPoolForward\<close>: a 2 by 2 window, stride 2; \<open>maxVal\<close> starts at \<^verbatim>\<open>-Infinity\<close>.\<close>

definition pool_max :: "neural_layer \<Rightarrow> number list \<Rightarrow> nat \<Rightarrow> nat \<Rightarrow> nat \<Rightarrow> nat \<Rightarrow> number" where
  "pool_max L input b c oh ow =
     (let inHeight = dim (inputShape L) 1; inWidth = dim (inputShape L) 2;
          channels = dim (inputShape L) 3
      in foldl (\<lambda>maxVal ph.
           foldl (\<lambda>maxVal pw.
             (let ih = js_add (js_mul (num oh) (Fin 2)) (num ph);
                  iw = js_add (js_mul (num ow) (Fin 2)) (num pw)
              in js_max maxVal (elem input (idx3 (num b) inHeight ih inWidth iw channels (num c)))))
             maxVal [0..<2])
           NegInf [0..<2])"

definition maxPoolForward ::
  "('p, 'x) platform_scheme \<Rightarrow> neural_layer \<Rightarrow> number list \<Rightarrow> error + number list" where
  "maxPoolForward P L input =
     (let batch = dim (inputShape L) 0; inHeight = dim (inputShape L) 1;
          inWidth = dim (inputShape L) 2; channels = dim (inputShape L) 3;
          outHeight = js_floor (js_div inHeight (Fin 2));
          outWidth = js_floor (js_div inWidth (Fin 2))
      in case new_Float32Array P (js_mul (js_mul (js_mul batch outHeight) outWidth) channels) of
           Inl e \<Rightarrow> Inl e
         | Inr output \<Rightarrow>
             Inr (foldl (\<lambda>out b.
                    foldl (\<lambda>out c.
                      foldl (\<lambda>out oh.
                        foldl (\<lambda>out ow.
                          store out
                            (idx3 (num b) outHeight (num oh) outWidth (num ow) channels (num c))
                            (pool_max L input b c oh ow))
                          out [0..<rounds outWidth])
                        out [0..<rounds outHeight])
                      out [0..<rounds channels])
                    output [0..<rounds batch]))"

subsection \<open>Flatten\<close>

definition flattenForward :: "neural_layer \<Rightarrow> number list \<Rightarrow> number list" where
  "flattenForward L input = input"

subsection \<open>Activation\<close>

text \<open>
  \<^verbatim>\<open>softmax\<close>: the maximum is found from \<^verbatim>\<open>data[0]\<close> on, each element has it
  subtracted and is exponentiated, and the exponentials are divided by their sum. The
  exponentials and the quotients are stored into \<^verbatim>\<open>Float32Array\<close>s of the length of
  \<open>data\<close>, and the sum is taken over the stored exponentials.
\<close>

definition softmax :: "number list \<Rightarrow> number list" where
  "softmax data =
     (let maxVal = foldl (\<lambda>m i. if js_gt (elem data (num i)) m then elem data (num i) else m)
                     (elem data (num 0)) [1..<length data];
          expData = map (\<lambda>x. to_float32 (js_exp (js_sub x maxVal))) data;
          sumExp = foldl js_add (Fin 0) expData
      in map (\<lambda>e. to_float32 (js_div e sumExp)) expData)"

text \<open>
  \<^verbatim>\<open>data.map(f)\<close> on a \<^verbatim>\<open>Float32Array\<close> gives a \<^verbatim>\<open>Float32Array\<close>, so the
  values of \<open>f\<close> are converted to the element type.
\<close>

definition applyActivation :: "neural_layer \<Rightarrow> number list \<Rightarrow> number list" where
  "applyActivation L data =
     (if activation L = ''relu'' then map (\<lambda>x. to_float32 (js_max (Fin 0) x)) data
      else if activation L = ''softmax'' then softmax data
      else if activation L = ''sigmoid'' then
        map (\<lambda>x. to_float32 (js_div (Fin 1) (js_add (Fin 1) (js_exp (js_neg x))))) data
      else if activation L = ''tanh'' then map (\<lambda>x. to_float32 (js_tanh x)) data
      else data)"

subsection \<open>Forward pass\<close>

definition forward ::
  "('p, 'x) platform_scheme \<Rightarrow> neural_layer \<Rightarrow> number list \<Rightarrow> error + number list" where
  "forward P L input =
     (case (if type L = ''conv2d'' then conv2dForward P L input
            else if type L = ''dense'' \<or> type L = ''fully_connected'' then denseForward P L input
            else if type L = ''maxpool2d'' then maxPoolForward P L input
            else if type L = ''flatten'' then Inr (flattenForward L input)
            else Inl (UnsupportedLayerType (type L))) of
        Inl e \<Rightarrow> Inl e
      | Inr output \<Rightarrow> Inr (applyActivation L output))"

section \<open>Strings and digests\<close>

text \<open>
  \<^verbatim>\<open>n.toString(radix)\<close> for a non-negative integer (the source uses the radices 10
  and 16), and \<^verbatim>\<open>padStart\<close>.
\<close>

definition digit_char :: "nat \<Rightarrow> char" where
  "digit_char d = ''0123456789abcdefghijklmnopqrstuvwxyz'' ! d"

function nat_toString :: "nat \<Rightarrow> nat \<Rightarrow> string" where
  "nat_toString radix n =
     (if n < radix \<or> radix < 2 then [digit_char n]
      else nat_toString radix (n div radix) @ [digit_char (n mod radix)])"
  by pat_completeness auto
termination
  by (relation "measure snd") auto

declare nat_toString.simps [simp del]

text \<open>The digits of an integer, with its sign.\<close>

definition int_digits :: "int \<Rightarrow> string" where
  "int_digits n = (if n < 0 then CHR ''-'' # nat_toString 10 (nat (- n)) else nat_toString 10 (nat n))"

text \<open>
  \<^verbatim>\<open>x.toString()\<close> for a number: an integer of at most \<open>2\<^sup>5\<^sup>3\<close> in absolute value
  prints as its digits; the text of any other finite number is the engine's.
\<close>

fun js_toString :: "('p, 'x) platform_scheme \<Rightarrow> number \<Rightarrow> string" where
  "js_toString P NaN = ''NaN''"
| "js_toString P PosInf = ''Infinity''"
| "js_toString P NegInf = ''-Infinity''"
| "js_toString P (Fin r) =
     (if r = of_int \<lfloor>r\<rfloor> \<and> \<bar>r\<bar> \<le> 2 ^ 53 then int_digits \<lfloor>r\<rfloor> else number_text P r)"

definition padStart :: "nat \<Rightarrow> char \<Rightarrow> string \<Rightarrow> string" where
  "padStart len c s = replicate (len - length s) c @ s"

text \<open>\<^verbatim>\<open>xs.join(sep)\<close>\<close>

fun join :: "string \<Rightarrow> string list \<Rightarrow> string" where
  "join sep [] = []"
| "join sep [x] = x"
| "join sep (x # y # ys) = x @ sep @ join sep (y # ys)"

text \<open>\<^verbatim>\<open>hashArray.map((b) => b.toString(16).padStart(2, '0')).join('')\<close>\<close>

definition hex :: "byte list \<Rightarrow> string" where
  "hex hashArray = join [] (map (\<lambda>b. padStart 2 (CHR ''0'') (nat_toString 16 (unat b))) hashArray)"

definition sha256 :: "('p, 'x) platform_scheme \<Rightarrow> string \<Rightarrow> string" where
  "sha256 P data = hex (digest P (encode P data))"

datatype hash_input = Text string | Buffer "byte list"

fun hashData :: "('p, 'x) platform_scheme \<Rightarrow> hash_input \<Rightarrow> string" where
  "hashData P (Text data) = sha256 P data"
| "hashData P (Buffer data) = hex (digest P data)"

section \<open>Shards and tasks\<close>

record model_shard =
  index :: int
  shardName :: string
  layerType :: string
  shardInputShape :: "int list"
  shardOutputShape :: "int list"
  shardLayers :: "neural_layer list"

text \<open>
  \<^verbatim>\<open>onProgress\<close> is an optional callback: the model records whether it is there, and
  the calls made to it are an output of \<open>executeShards\<close>.
\<close>

record shard_task =
  taskId :: string
  sampleId :: string
  modelName :: string
  modelVersion :: string
  shards :: "model_shard list"
  inputData :: string
  taskInputShape :: "int list"
  expectedLayers :: number
  difficulty :: string
  expectedTimeMs :: int
  groundTruthKey :: string
  labels :: "string list option"
  onProgress :: bool

record prediction =
  label :: string
  confidence :: number
  topK :: "(string \<times> number) list"

record inference_proof =
  proofTaskId :: string
  proofSampleId :: string
  layerCount :: nat
  outputHashes :: "string list"
  predictionHash :: string
  proofHash :: string
  timestamp :: int

record shard_execution_result =
  layerOutputs :: "number list list"
  resultPrediction :: prediction
  resultProof :: inference_proof
  totalMs :: real
  layerMs :: "real list"

section \<open>ShardInferenceEngine\<close>

text \<open>
  The engine holds the layers it loaded last. (Its \<^verbatim>\<open>config\<close> only prints debug
  lines, and the \<^verbatim>\<open>lastExecutionTime\<close> of a layer is never read: both are left out.)
\<close>

record shard_engine =
  layers :: "neural_layer list"

text \<open>
  \<^verbatim>\<open>loadShards\<close>: the two nested \<^verbatim>\<open>for ... of\<close> loops, pushing a new
  \<^verbatim>\<open>NeuralLayer\<close> for each configuration.
\<close>

definition loadShards :: "shard_engine \<Rightarrow> model_shard list \<Rightarrow> shard_engine" where
  "loadShards e shs =
     e\<lparr>layers := foldl (\<lambda>ls shard.
                    foldl (\<lambda>ls layerConfig. ls @ [NeuralLayer layerConfig]) ls (shardLayers shard))
                    [] shs\<rparr>"

subsection \<open>decodeInput\<close>

definition starts_with :: "string \<Rightarrow> string \<Rightarrow> bool" where
  "starts_with p s = (take (length p) s = p)"

text \<open>The last position of \<open>t\<close> at which \<open>p\<close> starts.\<close>

fun find_last :: "string \<Rightarrow> string \<Rightarrow> nat option" where
  "find_last p [] = (if p = [] then Some 0 else None)"
| "find_last p (c # cs) =
     (case find_last p cs of
        Some j \<Rightarrow> Some (Suc j)
      | None \<Rightarrow> if starts_with p (c # cs) then Some 0 else None)"

text \<open>
  \<^verbatim>\<open>data.replace(/^data:.*;base64,/, '')\<close>: the match starts at the beginning of the
  string, \<^verbatim>\<open>.*\<close> is greedy and stops at a line terminator (line feed and carriage
  return, among the characters of a \<open>string\<close>), so the last \<^verbatim>\<open>;base64,\<close> of the first
  line ends the match.
\<close>

definition strip_data_url :: "string \<Rightarrow> string" where
  "strip_data_url data =
     (if starts_with ''data:'' data then
        (case find_last '';base64,''
                (takeWhile (\<lambda>c. c \<noteq> CHR 0x0A \<and> c \<noteq> CHR 0x0D) (drop 5 data)) of
           None \<Rightarrow> data
         | Some j \<Rightarrow> drop (5 + j + 8) data)
      else data)"

fun chunks4 :: "byte list \<Rightarrow> byte list list" where
  "chunks4 (a # b # c # d # rest) = [a, b, c, d] # chunks4 rest"
| "chunks4 _ = []"

text \<open>\<^verbatim>\<open>new Float32Array(buffer)\<close>: a view of the bytes, four to an element.\<close>

definition Float32Array_of_buffer :: "('p, 'x) platform_scheme \<Rightarrow> byte list \<Rightarrow> error + number list" where
  "Float32Array_of_buffer P buffer =
     (if length buffer mod 4 \<noteq> 0 then Inl RangeError
      else Inr (map (float32_of_bytes P) (chunks4 buffer)))"

definition decodeInput :: "('p, 'x) platform_scheme \<Rightarrow> string \<Rightarrow> int list \<Rightarrow> error + number list" where
  "decodeInput P data shape_unused =
     (let base64Data = strip_data_url data
      in case atob P base64Data of
           None \<Rightarrow> Inl InvalidCharacterError
         | Some binaryString \<Rightarrow>
             (let bytes = map (\<lambda>c. (of_nat (of_char c :: nat) :: byte)) binaryString
              in Float32Array_of_buffer P bytes))"


subsection \<open>generatePrediction\<close>

text \<open>
  \<^verbatim>\<open>entries.sort((a, b) => b.val - a.val)\<close>: the sort of the language is stable, and
  an entry moves in front of another when the comparison of the two is positive. With
  a \<open>NaN\<close> among the values the comparison is not consistent, and the order is the
  engine's.
\<close>

fun insert_entry :: "number \<times> nat \<Rightarrow> (number \<times> nat) list \<Rightarrow> (number \<times> nat) list" where
  "insert_entry x [] = [x]"
| "insert_entry x (y # ys) =
     (if js_gt (js_sub (fst x) (fst y)) (Fin 0) then x # y # ys else y # insert_entry x ys)"

definition sort_entries ::
  "('p, 'x) platform_scheme \<Rightarrow> (number \<times> nat) list \<Rightarrow> (number \<times> nat) list" where
  "sort_entries P entries =
     (if NaN \<in> set (map fst entries) then engine_sort P entries
      else foldl (\<lambda>sorted x. insert_entry x sorted) [] entries)"

text \<open>\<^verbatim>\<open>labels[idx] || `class_${idx}`\<close>: a missing or empty label gives the placeholder.\<close>

definition label_of :: "('p, 'x) platform_scheme \<Rightarrow> string list \<Rightarrow> nat \<Rightarrow> string" where
  "label_of P lbls idx =
     (if idx < length lbls \<and> lbls ! idx \<noteq> [] then lbls ! idx
      else ''class_'' @ js_toString P (num idx))"

text \<open>\<^verbatim>\<open>Math.round(val * 1000) / 1000\<close>\<close>

definition round3 :: "number \<Rightarrow> number" where
  "round3 val = js_div (js_round (js_mul val (Fin 1000))) (Fin 1000)"

definition generatePrediction ::
  "('p, 'x) platform_scheme \<Rightarrow> number list \<Rightarrow> string list \<Rightarrow> prediction" where
  "generatePrediction P output lbls =
     (let (maxIdx, maxVal) =
            foldl (\<lambda>(maxIdx, maxVal) i.
                     if js_gt (elem output (num i)) maxVal then (i, elem output (num i))
                     else (maxIdx, maxVal))
              (0, elem output (num 0)) [1..<length output];
          entries = map (\<lambda>i. (elem output (num i), i)) [0..<length output];
          topEntries = take (min 5 (length output)) (sort_entries P entries)
      in \<lparr>label = label_of P lbls maxIdx,
          confidence = round3 maxVal,
          topK = map (\<lambda>(val, idx). (label_of P lbls idx, round3 val)) topEntries\<rparr>)"

subsection \<open>generateProof\<close>

text \<open>\<^verbatim>\<open>hashTensor\<close>: the digest of the bytes of the tensor.\<close>

definition hashTensor :: "('p, 'x) platform_scheme \<Rightarrow> number list \<Rightarrow> string" where
  "hashTensor P tensor = hashData P (Buffer (concat (map (float32_bytes P) tensor)))"

text \<open>
  \<^verbatim>\<open>generateProof\<close> is a method of the engine and reads the clock for its timestamp:
  the engine and the reading of \<^verbatim>\<open>Date.now()\<close> are arguments.
\<close>

definition generateProof ::
  "(prediction, 'x) platform_scheme \<Rightarrow> shard_engine \<Rightarrow> int \<Rightarrow>
   string \<Rightarrow> string \<Rightarrow> number \<Rightarrow> number list list \<Rightarrow> prediction \<Rightarrow> inference_proof" where
  "generateProof P this dateNow tId sId expLayers outputs pred =
     (let hashes = foldl (\<lambda>hs output. hs @ [hashTensor P output]) [] outputs;
          proofData = join '':''
            ([tId, sId, js_toString P expLayers] @ hashes @ [stringify P pred])
      in \<lparr>proofTaskId = tId,
          proofSampleId = sId,
          layerCount = length outputs,
          outputHashes = hashes,
          predictionHash = hashData P (Text (stringify P pred)),
          proofHash = hashData P (Text proofData),
          timestamp = dateNow\<rparr>)"

subsection \<open>executeShards\<close>

text \<open>
  The loop over the layers. It stops at the first layer that throws; \<open>i\<close> counts the
  layers done, \<open>n\<close> is \<^verbatim>\<open>this.layers.length\<close>. \<open>clock k\<close> is the \<open>k\<close>-th reading of
  \<^verbatim>\<open>performance.now()\<close> that \<open>executeShards\<close> makes, and \<open>reported\<close> collects the
  arguments of the calls to \<^verbatim>\<open>task.onProgress\<close>.
\<close>

fun run_layers ::
  "('p, 'x) platform_scheme \<Rightarrow> (nat \<Rightarrow> real) \<Rightarrow> bool \<Rightarrow> nat \<Rightarrow> nat \<Rightarrow> neural_layer list \<Rightarrow>
   number list \<Rightarrow> number list list \<Rightarrow> real list \<Rightarrow> number list \<Rightarrow>
   number list \<times> (error + number list \<times> number list list \<times> real list)" where
  "run_layers P clock cb n i [] currentOutput outs layerTimes reported =
     (reported, Inr (currentOutput, outs, layerTimes))"
| "run_layers P clock cb n i (layer # rest) currentOutput outs layerTimes reported =
     (case forward P layer currentOutput of
        Inl e \<Rightarrow> (reported, Inl e)
      | Inr out \<Rightarrow>
          run_layers P clock cb n (Suc i) rest out (outs @ [out])
            (layerTimes @ [clock (2 * i + 2) - clock (2 * i + 1)])
            (if cb then reported @ [js_div (num (i + 1)) (num n)] else reported))"

definition executeShards ::
  "(prediction, 'x) platform_scheme \<Rightarrow> (nat \<Rightarrow> real) \<Rightarrow> int \<Rightarrow> shard_engine \<Rightarrow> shard_task \<Rightarrow>
   shard_engine \<times> number list \<times> (error + shard_execution_result)" where
  "executeShards P clock dateNow this task =
     (let this' = loadShards this (shards task)
      in case decodeInput P (inputData task) (taskInputShape task) of
           Inl e \<Rightarrow> (this', [], Inl e)
         | Inr input \<Rightarrow>
             (case run_layers P clock (onProgress task) (length (layers this')) 0 (layers this')
                     input [] [] [] of
                (reported, Inl e) \<Rightarrow> (this', reported, Inl e)
              | (reported, Inr (currentOutput, outs, layerTimes)) \<Rightarrow>
                  (let pred = generatePrediction P currentOutput
                                (case labels task of None \<Rightarrow> [] | Some ls \<Rightarrow> ls);
                       prf = generateProof P this' dateNow (taskId task) (sampleId task)
                               (expectedLayers task) outs pred
                   in (this', reported,
                       Inr \<lparr>layerOutputs = outs, resultPrediction = pred, resultProof = prf,
                            totalMs = clock (2 * length (layers this') + 1) - clock 0,
                            layerMs = layerTimes\<rparr>))))"

section \<open>CaptchaSession\<close>

datatype widget_state = Idle | Loading | Processing | Verifying | Success | Error

type_synonym exn = string

text \<open>
  The fields of \<^verbatim>\<open>core/session.ts\<close> that its state, completion and expiry read or
  write (the task, the timing data, the legacy proof of work and the verification data
  are stored and returned unchanged, and are left out). Times are milliseconds.
  \<^verbatim>\<open>stateListeners\<close> is a \<^verbatim>\<open>Set\<close> of functions: a listener is named by a number, its
  identity, and the set is the list of its members in insertion order.
\<close>

record captcha_session =
  sessionId :: string
  challengeToken :: string
  expiresAt :: int
  createdAt :: int
  state :: widget_state
  sessionPrediction :: "prediction option"
  inferenceProof :: "inference_proof option"
  captchaToken :: "string option"
  sessionError :: "exn option"
  stateListeners :: "nat list"

definition CaptchaSession :: "string \<Rightarrow> string \<Rightarrow> int \<Rightarrow> int \<Rightarrow> captcha_session" where
  "CaptchaSession sid token expires now =
     \<lparr>sessionId = sid, challengeToken = token, expiresAt = expires, createdAt = now,
      state = Idle, sessionPrediction = None, inferenceProof = None, captchaToken = None,
      sessionError = None, stateListeners = []\<rparr>"

text \<open>
  Statements that may throw are functions from the world to a result and the world
  after: \<open>Inl e\<close> is the exception \<open>e\<close> on its way out. The world holds what
  \<^verbatim>\<open>console.error\<close> printed, the calls made to listeners (kept for the theorems to
  observe) and whatever the listeners themselves act on.
\<close>

record 'w world =
  console :: "exn list"
  notified :: "(nat \<times> widget_state) list"
  user :: 'w

type_synonym ('w, 'a) stmt = "'w world \<Rightarrow> (exn + 'a) \<times> 'w world"

text \<open>
  What each listener does when called: it changes its part of the world and returns or
  throws. (A listener that calls back into the session it listens to is outside the
  model.)
\<close>

type_synonym 'w callbacks = "nat \<Rightarrow> widget_state \<Rightarrow> 'w \<Rightarrow> (exn + unit) \<times> 'w"

definition call_listener :: "'w callbacks \<Rightarrow> nat \<Rightarrow> widget_state \<Rightarrow> ('w, unit) stmt" where
  "call_listener cbs listener st W =
     (case cbs listener st (user W) of
        (r, u) \<Rightarrow> (r, W\<lparr>notified := notified W @ [(listener, st)], user := u\<rparr>))"

definition console_error :: "exn \<Rightarrow> ('w, unit) stmt" where
  "console_error e W = (Inr (), W\<lparr>console := console W @ [e]\<rparr>)"

text \<open>\<^verbatim>\<open>try { body } catch (error) { handler }\<close>\<close>

definition try_catch :: "('w, 'a) stmt \<Rightarrow> (exn \<Rightarrow> ('w, 'a) stmt) \<Rightarrow> ('w, 'a) stmt" where
  "try_catch body handler W =
     (case body W of (Inl e, W') \<Rightarrow> handler e W' | (Inr a, W') \<Rightarrow> (Inr a, W'))"

text \<open>\<^verbatim>\<open>for (const x of xs) { body }\<close>: an exception of the body ends the loop.\<close>

fun for_of :: "'a list \<Rightarrow> ('a \<Rightarrow> ('w, unit) stmt) \<Rightarrow> ('w, unit) stmt" where
  "for_of [] body W = (Inr (), W)"
| "for_of (x # xs) body W =
     (case body x W of (Inl e, W') \<Rightarrow> (Inl e, W') | (Inr _, W') \<Rightarrow> for_of xs body W')"

definition notifyStateChange :: "'w callbacks \<Rightarrow> captcha_session \<Rightarrow> ('w, unit) stmt" where
  "notifyStateChange cbs this =
     for_of (stateListeners this)
       (\<lambda>listener. try_catch (call_listener cbs listener (state this)) console_error)"

text \<open>The setter of \<^verbatim>\<open>state\<close>; the session after it is part of the result.\<close>

definition set_state ::
  "'w callbacks \<Rightarrow> widget_state \<Rightarrow> captcha_session \<Rightarrow> 'w world \<Rightarrow>
   (exn + unit) \<times> captcha_session \<times> 'w world" where
  "set_state cbs newState this W =
     (if state this \<noteq> newState then
        (let this' = this\<lparr>state := newState\<rparr>
         in case notifyStateChange cbs this' W of (r, W') \<Rightarrow> (r, this', W'))
      else (Inr (), this, W))"

text \<open>The setter of \<^verbatim>\<open>error\<close>.\<close>

definition set_error ::
  "'w callbacks \<Rightarrow> exn option \<Rightarrow> captcha_session \<Rightarrow> 'w world \<Rightarrow>
   (exn + unit) \<times> captcha_session \<times> 'w world" where
  "set_error cbs val this W =
     (let this' = this\<lparr>sessionError := val\<rparr>
      in if val \<noteq> None then set_state cbs Error this' W else (Inr (), this', W))"

definition isExpired :: "captcha_session \<Rightarrow> int \<Rightarrow> bool" where
  "isExpired this now = (expiresAt this \<le> now)"

definition isCompleted :: "captcha_session \<Rightarrow> bool" where
  "isCompleted this = (state this = Success \<and> captchaToken this \<noteq> None)"

definition getTimeRemaining :: "captcha_session \<Rightarrow> int \<Rightarrow> int" where
  "getTimeRemaining this now = max 0 (expiresAt this - now)"

text \<open>
  \<^verbatim>\<open>onStateChange\<close> adds the callback to the set (a member stays where it is); the
  function it returns removes it.
\<close>

definition onStateChange :: "captcha_session \<Rightarrow> nat \<Rightarrow> captcha_session" where
  "onStateChange this callback =
     this\<lparr>stateListeners :=
            (if callback \<in> set (stateListeners this) then stateListeners this
             else stateListeners this @ [callback])\<rparr>"

definition unsubscribe :: "captcha_session \<Rightarrow> nat \<Rightarrow> captcha_session" where
  "unsubscribe this callback = this\<lparr>stateListeners := removeAll callback (stateListeners this)\<rparr>"

definition dispose :: "captcha_session \<Rightarrow> captcha_session" where
  "dispose this = this\<lparr>stateListeners := []\<rparr>"

section \<open>PoUWCaptcha: waiting for the verification\<close>

text \<open>
  \<^verbatim>\<open>waitForVerification\<close> of \<^verbatim>\<open>core/captcha.ts\<close> returns a promise and registers two
  callbacks: one with \<^verbatim>\<open>setInterval\<close>, every 100 ms, and one with \<^verbatim>\<open>setTimeout\<close>.
  The promise is settled by the first call of \<^verbatim>\<open>resolve\<close> or \<^verbatim>\<open>reject\<close>; later calls
  change nothing.
\<close>

datatype captcha_error_code =
  NETWORK_ERROR | MODEL_LOAD_ERROR | INFERENCE_ERROR | TIMEOUT_ERROR | VALIDATION_ERROR |
  SESSION_EXPIRED | INVALID_CONFIG | WEBGL_NOT_SUPPORTED | UNKNOWN_ERROR

record captcha_result =
  token :: string
  resultExpiresAt :: int
  resultSessionId :: string
  verificationPerformed :: bool

datatype rejection = CaptchaError captcha_error_code string | Thrown exn

datatype settlement = Pending | Resolved captcha_result | Rejected rejection

definition settle :: "settlement \<Rightarrow> settlement \<Rightarrow> settlement" where
  "settle outcome p = (if p = Pending then outcome else p)"

text \<open>
  What the two callbacks read and write: the field \<^verbatim>\<open>this.session\<close> of the
  orchestrator, the promise, whether the interval \<^verbatim>\<open>checkComplete\<close> is still registered,
  and whether the timeout has yet to run.
\<close>

record pending_wait =
  session :: "captcha_session option"
  promise :: settlement
  checkComplete :: bool
  timeoutArmed :: bool

definition createResult :: "captcha_session \<Rightarrow> string \<Rightarrow> int \<Rightarrow> bool \<Rightarrow> captcha_result" where
  "createResult s tok expires performed =
     \<lparr>token = tok, resultExpiresAt = expires, resultSessionId = sessionId s,
      verificationPerformed = performed\<rparr>"

text \<open>\<^verbatim>\<open>clearInterval(checkComplete)\<close> followed by \<^verbatim>\<open>resolve\<close> or \<^verbatim>\<open>reject\<close>.\<close>

definition clear_and_settle :: "settlement \<Rightarrow> pending_wait \<Rightarrow> pending_wait" where
  "clear_and_settle outcome w = w\<lparr>checkComplete := False, promise := settle outcome (promise w)\<rparr>"

text \<open>
  The interval callback, run when the clock reads \<open>now\<close>: without a session it rejects
  and returns; otherwise its three tests follow one another.
\<close>

definition poll :: "int \<Rightarrow> pending_wait \<Rightarrow> pending_wait" where
  "poll now w =
     (case session w of
        None \<Rightarrow> clear_and_settle (Rejected (CaptchaError SESSION_EXPIRED ''Session was disposed'')) w
      | Some s \<Rightarrow>
          (let w1 = (case captchaToken s of
                       Some tok \<Rightarrow>
                         if isCompleted s
                         then clear_and_settle (Resolved (createResult s tok (expiresAt s) True)) w
                         else w
                     | None \<Rightarrow> w);
               w2 = (if state s = Error
                     then clear_and_settle
                            (Rejected (case sessionError s of
                                         Some e \<Rightarrow> Thrown e
                                       | None \<Rightarrow> CaptchaError UNKNOWN_ERROR ''Verification failed'')) w1
                     else w1)
           in if isExpired s now
              then clear_and_settle (Rejected (CaptchaError SESSION_EXPIRED ''Session expired'')) w2
              else w2))"

text \<open>
  The timeout callback: \<^verbatim>\<open>!this.session?.isCompleted()\<close> is true without a session.
\<close>

definition on_timeout :: "pending_wait \<Rightarrow> pending_wait" where
  "on_timeout w =
     (let w1 = w\<lparr>checkComplete := False\<rparr>
      in if (case session w1 of None \<Rightarrow> True | Some s \<Rightarrow> \<not> isCompleted s)
         then w1\<lparr>promise := settle (Rejected (CaptchaError TIMEOUT_ERROR ''Verification timeout''))
                                (promise w1)\<rparr>
         else w1)"

text \<open>
  The delay of the timeout, \<^verbatim>\<open>this.session?.getTimeRemaining() || 60000\<close>: the default
  stands in when there is no session and when no time remains.
\<close>

definition timeoutDelay :: "captcha_session option \<Rightarrow> int \<Rightarrow> int" where
  "timeoutDelay this_session now =
     (case this_session of
        None \<Rightarrow> 60000
      | Some s \<Rightarrow> if getTimeRemaining s now = 0 then 60000 else getTimeRemaining s now)"

text \<open>The state in which \<^verbatim>\<open>waitForVerification\<close> leaves the wait, and the delay it asks for.\<close>

definition waitForVerification :: "captcha_session option \<Rightarrow> int \<Rightarrow> pending_wait \<times> int" where
  "waitForVerification this_session now =
     (\<lparr>session = this_session, promise = Pending, checkComplete = True, timeoutArmed = True\<rparr>,
      timeoutDelay this_session now)"

text \<open>
  What runs after that, each with the time at which it runs: the browser runs the
  interval callback while the interval is registered and the timeout callback once, and
  between them other code of the orchestrator (\<^verbatim>\<open>handleVerification\<close>, \<^verbatim>\<open>reset\<close>)
  may leave \<^verbatim>\<open>this.session\<close> changed. A run is on time when an interval callback runs
  a multiple of 100 ms after the start and the timeout callback when its delay is over.
\<close>

datatype action = Tick | Timeout | Assign "captcha_session option"

fun step :: "pending_wait \<Rightarrow> int \<times> action \<Rightarrow> pending_wait" where
  "step w (t, Tick) = (if checkComplete w then poll t w else w)"
| "step w (t, Timeout) = (if timeoutArmed w then on_timeout (w\<lparr>timeoutArmed := False\<rparr>) else w)"
| "step w (t, Assign s) = w\<lparr>session := s\<rparr>"

fun on_time :: "int \<Rightarrow> int \<Rightarrow> int \<times> action \<Rightarrow> bool" where
  "on_time start delay (t, Tick) = (start < t \<and> (t - start) mod 100 = 0)"
| "on_time start delay (t, Timeout) = (t = start + delay)"
| "on_time start delay (t, Assign s) = (start \<le> t)"

section \<open>The sharding utility\<close>

text \<open>
  \<^verbatim>\<open>mergeShards\<close> of the sharding utility, the function that puts the layers of
  shards back into one model: it sorts a copy of the shards by \<^verbatim>\<open>index\<close> (the sort of
  the language is stable) and then appends their layers.
\<close>

definition mergeShards :: "model_shard list \<Rightarrow> neural_layer list" where
  "mergeShards shs =
     (let sortedShards = sort_key index shs
      in foldl (\<lambda>allLayers shard. allLayers @ shardLayers shard) [] sortedShards)"


section \<open>Notions used in the statements\<close>

text \<open>
  \<open>x\<close> is a multiple of \<open>2\<^sup>s\<close>. Numbers that are multiples of one \<open>2\<^sup>s\<close> and stay
  below \<open>2\<^sup>s\<^sup>+\<^sup>5\<^sup>3\<close> are added in binary64 without rounding.
\<close>

definition on_grid :: "int \<Rightarrow> real \<Rightarrow> bool" where
  "on_grid s x = (x / 2 powi s = of_int \<lfloor>x / 2 powi s\<rfloor>)"

text \<open>The value of a string of decimal digits, to say what text \<open>js_toString\<close> gives.\<close>

definition digits_value :: "string \<Rightarrow> nat" where
  "digits_value ds = foldl (\<lambda>a c. 10 * a + (of_char c - 48)) 0 ds"

text \<open>Bytes in lower-case hexadecimal, two digits to a byte.\<close>

definition hex_digit :: "nat \<Rightarrow> char" where
  "hex_digit d = ''0123456789abcdef'' ! d"

definition lowercase_hex :: "byte list \<Rightarrow> string" where
  "lowercase_hex bs = concat (map (\<lambda>b. [hex_digit (unat b div 16), hex_digit (unat b mod 16)]) bs)"

text \<open>
  \<open>outs\<close> is what the layers \<open>ls\<close> give one after the other, starting from \<open>input\<close>:
  each layer is run on the output of the one before.
\<close>

fun chained ::
  "('p, 'x) platform_scheme \<Rightarrow> number list \<Rightarrow> neural_layer list \<Rightarrow> number list list \<Rightarrow> bool" where
  "chained P input [] outs = (outs = [])"
| "chained P input (l # ls) [] = False"
| "chained P input (l # ls) (out # outs) = (forward P l input = Inr out \<and> chained P out ls outs)"

text \<open>
  A stand-in for the browser, for running the model on examples: the digest is the
  identity, text is encoded byte by byte, \<^verbatim>\<open>atob\<close> accepts every string as it is, a
  prediction is serialized as its label, a tensor element is one byte, a typed array
  has at most \<open>2\<^sup>3\<^sup>2 - 1\<close> elements, and the sort leaves entries with a \<open>NaN\<close> as
  they are.
\<close>

definition example_platform :: "prediction platform" where
  "example_platform =
     \<lparr>digest = (\<lambda>bs. bs),
      encode = map (\<lambda>c. of_nat (of_char c)),
      atob = Some,
      stringify = label,
      float32_bytes = (\<lambda>x. case x of Fin r \<Rightarrow> [of_int \<lfloor>r\<rfloor>] | _ \<Rightarrow> [0]),
      float32_of_bytes = (\<lambda>bs. Fin (real (unat (hd bs)))),
      maxLength = 4294967295,
      number_text = (\<lambda>r. ''?''),
      engine_sort = (\<lambda>entries. entries)\<rparr>"

text \<open>The number that a decimal literal of the source, or of a JSON text, denotes.\<close>

definition literal :: "real \<Rightarrow> number" where
  "literal r = round64 r"

text \<open>
  The configuration of the dense layer of the repository's test, with the linear
  activation, and the layer that the constructor makes of it.
\<close>

definition example_config :: neural_layer where
  "example_config =
     \<lparr>name = ''dense_1'', type = ''dense'',
      weights = map literal [1/10, 2/10, 3/10, 4/10, 5/10, 6/10, 7/10, 8/10],
      biases = map literal [1/10, 1/10],
      inputShape = [1, 4], outputShape = [1, 2], activation = ''linear''\<rparr>"

definition example_layer :: neural_layer where
  "example_layer = NeuralLayer example_config"

definition example_shard :: model_shard where
  "example_shard =
     \<lparr>index = 0, shardName = ''shard_0'', layerType = ''dense'',
      shardInputShape = [1, 4], shardOutputShape = [1, 2], shardLayers = [example_layer]\<rparr>"

text \<open>
  The input of the example is the four elements 1, 2, 3, 4 in the encoding of
  \<open>example_platform\<close>; the shape the task declares for it does not fit them.
\<close>

definition example_task :: shard_task where
  "example_task =
     \<lparr>taskId = ''t1'', sampleId = ''s1'', modelName = ''m'', modelVersion = ''1.0'',
      shards = [example_shard],
      inputData = [CHR 0x01, CHR 0x00, CHR 0x00, CHR 0x00, CHR 0x02, CHR 0x00, CHR 0x00, CHR 0x00,
                   CHR 0x03, CHR 0x00, CHR 0x00, CHR 0x00, CHR 0x04, CHR 0x00, CHR 0x00, CHR 0x00],
      taskInputShape = [1, 784], expectedLayers = Fin 1, difficulty = ''easy'', expectedTimeMs = 100,
      groundTruthKey = ''gt'', labels = Some [''zero'', ''one''], onProgress = True\<rparr>"

text \<open>A second shard, one level deeper than \<open>example_shard\<close>, with a layer of its own.\<close>

definition second_layer :: neural_layer where
  "second_layer =
     \<lparr>name = ''dense_2'', type = ''dense'',
      weights = map Fin [1, 1], biases = map Fin [0],
      inputShape = [1, 2], outputShape = [1, 1], activation = ''relu''\<rparr>"

definition second_shard :: model_shard where
  "second_shard =
     \<lparr>index = 1, shardName = ''shard_1'', layerType = ''dense'',
      shardInputShape = [1, 2], shardOutputShape = [1, 1], shardLayers = [second_layer]\<rparr>"

text \<open>
  Dense layers whose arrays do not fit their shapes (4 inputs, 2 outputs): one with a
  single weight and no bias, one with a single bias, and the latter with two weights
  more than the shapes ask for.
\<close>

definition mismatched_layer :: neural_layer where
  "mismatched_layer = example_layer\<lparr>weights := map Fin [1], biases := []\<rparr>"

definition short_bias_layer :: neural_layer where
  "short_bias_layer = example_layer\<lparr>biases := take 1 (biases example_layer), activation := ''relu''\<rparr>"

definition surplus_layer :: neural_layer where
  "surplus_layer = short_bias_layer\<lparr>weights := weights short_bias_layer @ map Fin [5, 6]\<rparr>"

text \<open>A dense layer with one weight, \<open>2\<^sup>1\<^sup>0\<^sup>0\<close>, for an output beyond binary32.\<close>

definition large_layer :: neural_layer where
  "large_layer =
     \<lparr>name = ''dense_3'', type = ''dense'',
      weights = map Fin [2 ^ 100], biases = map Fin [0],
      inputShape = [1, 1], outputShape = [1, 1], activation = ''linear''\<rparr>"


text \<open>
  A session waiting for its verification, with 1000 ms left, and the same session once
  \<^verbatim>\<open>handleVerification\<close> has stored the token; a run in which that happens between the
  last poll and the timeout.
\<close>

definition verifying_session :: captcha_session where
  "verifying_session = (CaptchaSession ''sid'' ''challenge'' 1000 0)\<lparr>state := Verifying\<rparr>"

definition verified_session :: captcha_session where
  "verified_session = verifying_session\<lparr>captchaToken := Some ''token'', state := Success\<rparr>"

definition late_schedule :: "(int \<times> action) list" where
  "late_schedule =
     [(100, Tick), (200, Tick), (300, Tick), (400, Tick), (500, Tick), (600, Tick), (700, Tick),
      (800, Tick), (900, Tick), (950, Assign (Some verified_session)), (1000, Timeout)]"

text \<open>
  What one listener leaves behind when it is called with the state \<open>st\<close>: the call is
  recorded, its part of the world is what the listener made of it, and the console has
  the exception if it threw one.
\<close>

definition listener_step :: "'w callbacks \<Rightarrow> widget_state \<Rightarrow> 'w world \<Rightarrow> nat \<Rightarrow> 'w world" where
  "listener_step cbs st W listener =
     (case cbs listener st (user W) of
        (r, u) \<Rightarrow>
          W\<lparr>console := (case r of Inl e \<Rightarrow> console W @ [e] | Inr _ \<Rightarrow> console W),
            notified := notified W @ [(listener, st)],
            user := u\<rparr>)"

text \<open>
  Three listeners for an example: each counts its call in the world, and listener 1
  throws after counting.
\<close>

definition example_callbacks :: "nat callbacks" where
  "example_callbacks listener st u = (if listener = 1 then (Inl ''boom'', u + 1) else (Inr (), u + 1))"


section \<open>Properties of rounding\<close>

lemma round_even_int [simp]: "round_even (of_int m) = m"
  by (simp add: round_even_def)

lemma floor_log2:
  assumes "2 powi e \<le> x" "x < 2 powi (e + 1)"
  shows "\<lfloor>log 2 x\<rfloor> = e"
proof -
  have "(0::real) < 2 powi e" by simp
  with assms(1) have pos: "0 < x" by linarith
  have p: "(2::real) powi k = 2 powr (of_int k)" for k
    by (simp add: powr_real_of_int')
  have "of_int e \<le> log 2 x" using assms(1) pos by (simp add: p le_log_iff)
  moreover have "log 2 x < of_int (e + 1)" using assms(2) pos by (simp add: p log_less_iff)
  ultimately show ?thesis by (simp add: floor_eq_iff)
qed

text \<open>The rounding of a number whose exponent is known.\<close>

lemma fround_at:
  assumes "2 powi k \<le> \<bar>x\<bar>" "\<bar>x\<bar> < 2 powi (k + 1)"
  shows "fround p emin emax x =
     (let e = max (k - (int p - 1)) (emin - (int p - 1));
          y = of_int (round_even (x / 2 powi e)) * 2 powi e
      in if 2 powi (emax + 1) \<le> \<bar>y\<bar> then (if x < 0 then NegInf else PosInf) else Fin y)"
proof -
  have "(0::real) < 2 powi k" by simp
  with assms(1) have "0 < \<bar>x\<bar>" by linarith
  then have "x \<noteq> 0" by simp
  moreover have "\<lfloor>log 2 \<bar>x\<bar>\<rfloor> = k" using assms by (rule floor_log2)
  ultimately show ?thesis by (simp add: fround_def)
qed

text \<open>A number with \<open>p\<close> significant bits, within the exponent range, is not rounded.\<close>

lemma fround_exact:
  assumes x: "x = of_int m * 2 powi s" and m: "\<bar>m\<bar> < 2 ^ p"
    and s: "emin - (int p - 1) \<le> s" and top: "\<bar>x\<bar> < 2 powi (emax + 1)"
  shows "fround p emin emax x = Fin x"
proof (cases "x = 0")
  case True
  then show ?thesis by (simp add: fround_def)
next
  case False
  define k where "k = \<lfloor>log 2 \<bar>x\<bar>\<rfloor>"
  define e where "e = max (k - (int p - 1)) (emin - (int p - 1))"
  have p2: "(2::real) powi j = 2 powr (of_int j)" for j
    by (simp add: powr_real_of_int')
  have "\<bar>x\<bar> = of_int \<bar>m\<bar> * 2 powi s"
    by (simp add: x abs_mult)
  also have "\<dots> < 2 ^ p * 2 powi s"
    using m by (intro mult_strict_right_mono)
      (simp_all add: of_int_less_iff [symmetric, where 'a = real] del: of_int_less_iff)
  also have "\<dots> = 2 powi (int p + s)"
    by (simp add: power_int_add)
  finally have "\<bar>x\<bar> < 2 powr (of_int (int p + s))"
    by (simp only: p2)
  with False have "log 2 \<bar>x\<bar> < of_int (int p + s)"
    by (simp add: log_less_iff)
  then have "k < int p + s"
    unfolding k_def by (simp add: floor_less_iff)
  with s have e: "e \<le> s"
    by (simp add: e_def)
  have "x / 2 powi e = of_int m * 2 powi (s - e)"
    by (simp add: x power_int_diff)
  also have "\<dots> = of_int (m * 2 ^ nat (s - e))"
    using e by (simp add: power_int_def)
  finally have "round_even (x / 2 powi e) = m * 2 ^ nat (s - e)"
    by (simp only: round_even_int)
  then have "real_of_int (round_even (x / 2 powi e)) * 2 powi e =
      of_int m * (2 powi (s - e) * 2 powi e)"
    using e by (simp add: power_int_def)
  also have "\<dots> = x"
    by (simp add: x power_int_add [symmetric])
  finally have y: "real_of_int (round_even (x / 2 powi e)) * 2 powi e = x" .
  show ?thesis
    using False top by (simp add: fround_def Let_def k_def [symmetric] e_def [symmetric] y)
qed

lemma round64_exact:
  assumes "x = of_int m * 2 powi s" "\<bar>m\<bar> < 2 ^ 53" "- 1074 \<le> s" "s \<le> 971"
  shows "round64 x = Fin x"
proof -
  have "\<bar>x\<bar> = of_int \<bar>m\<bar> * 2 powi s"
    by (simp add: assms(1) abs_mult)
  also have "\<dots> < 2 ^ 53 * 2 powi s"
    using assms(2) by (intro mult_strict_right_mono)
      (simp_all add: of_int_less_iff [symmetric, where 'a = real] del: of_int_less_iff)
  also have "\<dots> = 2 powi (53 + s)"
    by (simp add: power_int_add)
  also have "\<dots> \<le> 2 powi 1024"
    using assms(4) by (intro power_int_increasing) simp_all
  finally have "\<bar>x\<bar> < 2 powi (1023 + 1)"
    by simp
  with assms show ?thesis
    unfolding round64_def by (intro fround_exact [of x m s]) simp_all
qed

lemma round64_nat: "n < 2 ^ 53 \<Longrightarrow> round64 (real n) = Fin (real n)"
  by (rule round64_exact [of _ "int n" 0]) simp_all

lemma on_grid_iff: "on_grid s x \<longleftrightarrow> (\<exists>m. x = of_int m * 2 powi s)"
proof
  assume "on_grid s x"
  then have "x = of_int \<lfloor>x / 2 powi s\<rfloor> * 2 powi s"
    by (simp add: on_grid_def field_simps)
  then show "\<exists>m. x = of_int m * 2 powi s" ..
next
  assume "\<exists>m. x = of_int m * 2 powi s"
  then obtain m where "x = of_int m * 2 powi s" ..
  then have "x / 2 powi s = of_int m" by simp
  then show "on_grid s x" by (simp add: on_grid_def)
qed

lemma on_grid_add: "on_grid s x \<Longrightarrow> on_grid s y \<Longrightarrow> on_grid s (x + y)"
proof -
  assume "on_grid s x" "on_grid s y"
  then obtain m n where "x = of_int m * 2 powi s" "y = of_int n * 2 powi s"
    unfolding on_grid_iff by blast
  then have "x + y = of_int (m + n) * 2 powi s"
    by (simp add: algebra_simps)
  then show ?thesis
    unfolding on_grid_iff ..
qed

text \<open>A multiple of \<open>2\<^sup>s\<close> below \<open>2\<^sup>s\<^sup>+\<^sup>5\<^sup>3\<close> is a binary64 number.\<close>

lemma round64_grid:
  assumes "on_grid s x" "\<bar>x\<bar> < 2 powi (s + 53)" "- 1074 \<le> s" "s \<le> 971"
  shows "round64 x = Fin x"
proof -
  from assms(1) obtain m where m: "x = of_int m * 2 powi s"
    unfolding on_grid_iff ..
  have "real_of_int \<bar>m\<bar> * 2 powi s = \<bar>x\<bar>"
    by (simp add: m abs_mult)
  also have "\<dots> < 2 powi (s + 53)" by (rule assms(2))
  also have "\<dots> = 2 ^ 53 * 2 powi s"
    by (simp add: power_int_add)
  finally have "real_of_int \<bar>m\<bar> < 2 ^ 53"
    by simp
  then have "\<bar>m\<bar> < 2 ^ 53"
    by (simp add: of_int_less_iff [symmetric, where 'a = real] del: of_int_less_iff)
  with m assms(3,4) show ?thesis
    by (intro round64_exact [of x m s])
qed

text \<open>
  So a binary64 sum that starts at \<open>b\<close> and takes the terms \<open>ts\<close> from the left is the
  exact sum when all are multiples of one \<open>2\<^sup>s\<close> and their absolute values add up to
  less than \<open>2\<^sup>s\<^sup>+\<^sup>5\<^sup>3\<close>.
\<close>

lemma exact_fold:
  assumes "- 1074 \<le> s" "s \<le> 971"
    and "on_grid s b" "\<forall>t \<in> set ts. on_grid s t"
    and "\<bar>b\<bar> + sum_list (map abs ts) < 2 powi (s + 53)"
  shows "foldl js_add (Fin b) (map Fin ts) = Fin (b + sum_list ts)"
  using assms(3-5)
proof (induction ts arbitrary: b)
  case Nil
  then show ?case by simp
next
  case (Cons t ts)
  have nonneg: "0 \<le> sum_list (map abs ts)"
    by (rule sum_list_nonneg) auto
  have grid: "on_grid s (b + t)"
    using Cons.prems by (simp add: on_grid_add)
  have "\<bar>b + t\<bar> + sum_list (map abs ts) \<le> \<bar>b\<bar> + sum_list (map abs (t # ts))"
    by simp
  with Cons.prems(3) have room: "\<bar>b + t\<bar> + sum_list (map abs ts) < 2 powi (s + 53)"
    by linarith
  with nonneg have "\<bar>b + t\<bar> < 2 powi (s + 53)"
    by linarith
  with grid assms(1,2) have "round64 (b + t) = Fin (b + t)"
    by (intro round64_grid)
  moreover have "foldl js_add (Fin (b + t)) (map Fin ts) = Fin (b + t + sum_list ts)"
    using Cons.prems(2) by (intro Cons.IH [OF grid _ room]) simp
  ultimately show ?case
    by (simp add: add.assoc)
qed

lemma round64_at:
  assumes "2 powi k \<le> \<bar>x\<bar>" "\<bar>x\<bar> < 2 powi (k + 1)"
  shows "round64 x =
     (let e = max (k - 52) (- 1074); y = of_int (round_even (x / 2 powi e)) * 2 powi e
      in if 2 powi 1024 \<le> \<bar>y\<bar> then (if x < 0 then NegInf else PosInf) else Fin y)"
  unfolding round64_def fround_at [OF assms] by simp

lemma round32_at:
  assumes "2 powi k \<le> \<bar>x\<bar>" "\<bar>x\<bar> < 2 powi (k + 1)"
  shows "round32 x =
     (let e = max (k - 23) (- 149); y = of_int (round_even (x / 2 powi e)) * 2 powi e
      in if 2 powi 128 \<le> \<bar>y\<bar> then (if x < 0 then NegInf else PosInf) else Fin y)"
  unfolding round32_def fround_at [OF assms] by simp

section \<open>Loops in closed form\<close>

lemma elem_num: "elem xs (num k) = (if k < length xs then xs ! k else NaN)"
  by (simp add: num_def)

lemma elem_take: "k < c \<Longrightarrow> elem (take c xs) (num k) = elem xs (num k)"
  by (simp add: elem_num)

lemma store_num: "store xs (num k) v = xs[k := to_float32 v]"
  by (simp add: num_def)

text \<open>The index \<^verbatim>\<open>o * inputSize + i\<close> is computed exactly while it is below \<open>2\<^sup>5\<^sup>3\<close>.\<close>

lemma dense_index:
  assumes "o' * n + i < 2 ^ 53"
  shows "js_add (js_mul (num o') (Fin (real n))) (num i) = num (o' * n + i)"
proof -
  have "o' * n < 2 ^ 53"
    using assms by linarith
  then have "round64 (real (o' * n)) = Fin (real (o' * n))"
    by (rule round64_nat)
  moreover have "round64 (real (o' * n + i)) = Fin (real (o' * n + i))"
    using assms by (rule round64_nat)
  ultimately show ?thesis
    by (simp add: num_def)
qed

lemma fill_loop:
  "m \<le> length out0 \<Longrightarrow>
   foldl (\<lambda>out k. out[k := f k]) out0 [0..<m] = map f [0..<m] @ drop m out0"
proof (induction m)
  case 0
  then show ?case by simp
next
  case (Suc m)
  then have "m < length out0" by simp
  then have "(map f [0..<m] @ drop m out0)[m := f m] = map f [0..<m] @ f m # drop (Suc m) out0"
    by (simp add: list_update_append Cons_nth_drop_Suc [symmetric])
  with Suc show ?case by simp
qed

lemma push_loop: "foldl (\<lambda>acc x. acc @ [f x]) acc xs = acc @ map f xs"
  by (induction xs arbitrary: acc) simp_all

lemma js_mul_NaN [simp]: "js_mul x NaN = NaN"
  by (cases x) simp_all

lemma js_add_NaN [simp]: "js_add x NaN = NaN"
  by (cases x) simp_all

lemma js_add_NaN_left [simp]: "js_add NaN x = NaN"
  by (cases x) simp_all

lemma foldl_js_add_NaN: "foldl (\<lambda>sum i. js_add sum (g i)) NaN is = NaN"
  by (induction "is") simp_all

text \<open>Once a term of the sum is \<open>NaN\<close>, the sum is.\<close>

lemma foldl_js_add_NaN_term:
  "i \<in> set is \<Longrightarrow> g i = NaN \<Longrightarrow> foldl (\<lambda>sum i. js_add sum (g i)) b is = NaN"
proof (induction "is" arbitrary: b)
  case Nil
  then show ?case by simp
next
  case (Cons j js)
  show ?case
  proof (cases "g j = NaN")
    case True
    then show ?thesis by (simp add: foldl_js_add_NaN)
  next
    case False
    with Cons.prems have "i \<in> set js" by auto
    from Cons.IH [OF this Cons.prems(2)] show ?thesis by simp
  qed
qed


subsection \<open>The dense layer\<close>

lemma dense_sum_closed:
  assumes "inputShape L \<noteq> []" "last (inputShape L) = int n"
    and "o' < m" "m * n < 2 ^ 53"
  shows "dense_sum L input (lastDim (inputShape L)) o' =
     foldl (\<lambda>sum i. js_add sum (js_mul (elem input (num i)) (elem (weights L) (num (o' * n + i)))))
       (elem (biases L) (num o')) [0..<n]"
proof -
  have idx: "o' * n + i < 2 ^ 53" if "i < n" for i
  proof -
    have "o' * n + i < Suc o' * n" using that by simp
    also have "\<dots> \<le> m * n" using \<open>o' < m\<close> by (intro mult_le_mono1) simp
    finally show ?thesis using assms(4) by simp
  qed
  have "dense_sum L input (lastDim (inputShape L)) o' =
      foldl (\<lambda>sum i. js_add sum
               (js_mul (elem input (num i))
                  (elem (weights L) (js_add (js_mul (num o') (Fin (real n))) (num i)))))
        (elem (biases L) (num o')) [0..<n]"
    using assms(1,2) by (simp add: dense_sum_def lastDim_def)
  also have "\<dots> = foldl (\<lambda>sum i. js_add sum
               (js_mul (elem input (num i)) (elem (weights L) (num (o' * n + i)))))
        (elem (biases L) (num o')) [0..<n]"
  proof (rule foldl_cong)
    fix a i
    assume "i \<in> set [0..<n]"
    then have "i < n" by simp
    from dense_index [OF idx [OF this]]
    show "js_add a (js_mul (elem input (num i))
              (elem (weights L) (js_add (js_mul (num o') (Fin (real n))) (num i)))) =
          js_add a (js_mul (elem input (num i)) (elem (weights L) (num (o' * n + i))))"
      by simp
  qed simp_all
  finally show ?thesis .
qed

lemma denseForward_closed:
  assumes "outputShape L \<noteq> []" "last (outputShape L) = int m" "m \<le> maxLength P"
  shows "denseForward P L input =
     Inr (map (\<lambda>o'. to_float32 (dense_sum L input (lastDim (inputShape L)) o')) [0..<m])"
  using assms by (simp add: denseForward_def Let_def lastDim_def store_num fill_loop)

lemma denseForward_too_long:
  assumes "outputShape L \<noteq> []" "last (outputShape L) = int m" "maxLength P < m"
  shows "denseForward P L input = Inl RangeError"
  using assms by (simp add: denseForward_def Let_def lastDim_def)

lemma dense_sum_exact:
  assumes shape: "inputShape L \<noteq> []" "last (inputShape L) = int n"
    and idx: "o' < m" "m * n < 2 ^ 53"
    and fin: "input = map Fin xs" "weights L = map Fin ws" "biases L = map Fin bs"
    and sizes: "n \<le> length xs" "m * n \<le> length ws" "m \<le> length bs"
    and s: "- 1074 \<le> s" "s \<le> 971"
    and grid: "on_grid s (bs ! o')" "\<forall>i<n. on_grid s (xs ! i * ws ! (o' * n + i))"
    and room: "\<bar>bs ! o'\<bar> + (\<Sum>i<n. \<bar>xs ! i * ws ! (o' * n + i)\<bar>) < 2 powi (s + 53)"
  shows "dense_sum L input (lastDim (inputShape L)) o' =
     Fin (bs ! o' + (\<Sum>i<n. xs ! i * ws ! (o' * n + i)))"
proof -
  let ?t = "\<lambda>i. xs ! i * ws ! (o' * n + i)"
  have inside: "o' * n + i < length ws" if "i < n" for i
  proof -
    have "o' * n + i < Suc o' * n" using that by simp
    also have "\<dots> \<le> m * n" using \<open>o' < m\<close> by (intro mult_le_mono1) simp
    finally show ?thesis using sizes by simp
  qed
  have sums: "sum_list (map f [0..<n]) = (\<Sum>i<n. f i)" for f :: "nat \<Rightarrow> real"
    by (simp add: interv_sum_list_conv_sum_set_nat atLeast0LessThan)
  have small: "\<bar>?t i\<bar> < 2 powi (s + 53)" if "i < n" for i
  proof -
    have "\<bar>?t i\<bar> \<le> (\<Sum>i<n. \<bar>?t i\<bar>)"
      using that by (intro member_le_sum) simp_all
    with room show ?thesis by linarith
  qed
  have product: "js_mul (elem input (num i)) (elem (weights L) (num (o' * n + i))) = Fin (?t i)"
    if "i < n" for i
  proof -
    have "round64 (?t i) = Fin (?t i)"
      using grid(2) small that s by (intro round64_grid) simp_all
    then show ?thesis
      using that fin sizes inside [OF that] by (simp add: elem_num)
  qed
  have bias: "elem (biases L) (num o') = Fin (bs ! o')"
    using fin sizes idx by (simp add: elem_num)
  have "dense_sum L input (lastDim (inputShape L)) o' =
      foldl (\<lambda>sum i. js_add sum (Fin (?t i))) (Fin (bs ! o')) [0..<n]"
    unfolding dense_sum_closed [OF shape idx] bias
    by (rule foldl_cong) (simp_all add: product)
  also have "\<dots> = foldl js_add (Fin (bs ! o')) (map Fin (map ?t [0..<n]))"
    by (simp add: foldl_map)
  also have "\<dots> = Fin (bs ! o' + sum_list (map ?t [0..<n]))"
  proof (rule exact_fold [OF s grid(1)])
    show "\<forall>t \<in> set (map ?t [0..<n]). on_grid s t"
      using grid(2) by auto
    have "sum_list (map abs (map ?t [0..<n])) = (\<Sum>i<n. \<bar>?t i\<bar>)"
      by (simp add: comp_def sums)
    with room show "\<bar>bs ! o'\<bar> + sum_list (map abs (map ?t [0..<n])) < 2 powi (s + 53)"
      by simp
  qed
  finally show ?thesis
    by (simp add: sums)
qed

text \<open>Weights and biases beyond those that the shapes ask for do not reach the sum.\<close>

lemma dense_sum_surplus:
  assumes "inputShape L \<noteq> []" "last (inputShape L) = int n"
    and "o' < m" "m * n < 2 ^ 53"
    and "inputShape L' = inputShape L"
    and "take (m * n) (weights L') = take (m * n) (weights L)"
    and "take m (biases L') = take m (biases L)"
  shows "dense_sum L' input (lastDim (inputShape L')) o' =
     dense_sum L input (lastDim (inputShape L)) o'"
proof -
  have inside: "o' * n + i < m * n" if "i < n" for i
  proof -
    have "o' * n + i < Suc o' * n" using that by simp
    also have "\<dots> \<le> m * n" using \<open>o' < m\<close> by (intro mult_le_mono1) simp
    finally show ?thesis .
  qed
  have w: "elem (weights L') (num (o' * n + i)) = elem (weights L) (num (o' * n + i))"
    if "i < n" for i
    using elem_take [OF inside [OF that], of "weights L'"] elem_take [OF inside [OF that], of "weights L"]
    by (simp only: assms(6))
  have b: "elem (biases L') (num o') = elem (biases L) (num o')"
    using elem_take [OF assms(3), of "biases L'"] elem_take [OF assms(3), of "biases L"]
    by (simp only: assms(7))
  have shape': "inputShape L' \<noteq> []" "last (inputShape L') = int n"
    using assms(1,2,5) by simp_all
  show ?thesis
    unfolding dense_sum_closed [OF shape' assms(3,4)] dense_sum_closed [OF assms(1-4)] b
    by (rule foldl_cong) (simp_all add: w)
qed

lemma length_applyActivation: "length (applyActivation L data) = length data"
  by (simp add: applyActivation_def softmax_def Let_def)



subsection \<open>Text\<close>

lemma join_Cons: "xs \<noteq> [] \<Longrightarrow> join sep (x # xs) = x @ sep @ join sep xs"
  by (cases xs) simp_all

lemma join_snoc: "join sep (hs @ [z]) = concat (map (\<lambda>h. h @ sep) hs) @ z"
  by (induction hs) (simp_all add: join_Cons)

lemma digit_value: "d < 10 \<Longrightarrow> (of_char (digit_char d) :: nat) - 48 = d"
proof -
  assume "d < 10"
  then have "d \<in> {0, 1, 2, 3, 4, 5, 6, 7, 8, 9}"
    by auto
  then show ?thesis
    by (auto simp: digit_char_def)
qed

lemma digits_value_snoc: "digits_value (ds @ [c]) = 10 * digits_value ds + (of_char c - 48)"
  by (simp add: digits_value_def)

lemma digits_value_nat_toString: "digits_value (nat_toString 10 n) = n"
proof (induction "10::nat" n rule: nat_toString.induct)
  case (1 n)
  show ?case
  proof (cases "n < 10")
    case True
    then show ?thesis
      by (simp add: nat_toString.simps [of 10 n] digits_value_def digit_value)
  next
    case False
    then have "digits_value (nat_toString 10 (n div 10)) = n div 10"
      using 1 by simp
    with False show ?thesis
      by (simp add: nat_toString.simps [of 10 n] digits_value_snoc digit_value)
  qed
qed

lemma digit_decimal: "d < 10 \<Longrightarrow> digit_char d \<in> set ''0123456789'' \<and> (0 < d \<longrightarrow> digit_char d \<noteq> CHR ''0'')"
proof -
  have "\<forall>d<10. digit_char d \<in> set ''0123456789'' \<and> (0 < d \<longrightarrow> digit_char d \<noteq> CHR ''0'')"
    by (simp add: eval_nat_numeral All_less_Suc digit_char_def)
  then show "d < 10 \<Longrightarrow> digit_char d \<in> set ''0123456789'' \<and> (0 < d \<longrightarrow> digit_char d \<noteq> CHR ''0'')"
    by blast
qed

lemma nat_toString_digits:
  "set (nat_toString 10 n) \<subseteq> set ''0123456789'' \<and> nat_toString 10 n \<noteq> []"
proof (induction "10::nat" n rule: nat_toString.induct)
  case (1 n)
  show ?case
  proof (cases "n < 10")
    case True
    with digit_decimal [of n] show ?thesis
      by (simp add: nat_toString.simps [of 10 n])
  next
    case False
    then have "set (nat_toString 10 (n div 10)) \<subseteq> set ''0123456789''"
      using 1 by simp
    moreover have "digit_char (n mod 10) \<in> set ''0123456789''"
      using digit_decimal [of "n mod 10"] by simp
    ultimately show ?thesis
      using False by (simp add: nat_toString.simps [of 10 n])
  qed
qed

lemma nat_toString_leading: "0 < n \<Longrightarrow> hd (nat_toString 10 n) \<noteq> CHR ''0''"
proof (induction "10::nat" n rule: nat_toString.induct)
  case (1 n)
  show ?case
  proof (cases "n < 10")
    case True
    with digit_decimal [of n] \<open>0 < n\<close> show ?thesis
      by (simp add: nat_toString.simps [of 10 n])
  next
    case False
    then have "0 < n div 10"
      by simp
    with False 1 have "hd (nat_toString 10 (n div 10)) \<noteq> CHR ''0''"
      by simp
    moreover have "nat_toString 10 (n div 10) \<noteq> []"
      using nat_toString_digits [of "n div 10"] by simp
    ultimately show ?thesis
      using False by (simp add: nat_toString.simps [of 10 n])
  qed
qed

lemma join_empty: "join [] xs = concat xs"
proof (induction xs)
  case Nil
  show ?case by simp
next
  case (Cons x xs)
  then show ?case by (cases xs) simp_all
qed

lemma digit_hex: "d < 16 \<Longrightarrow> digit_char d = hex_digit d"
proof -
  have "\<forall>d<16. digit_char d = hex_digit d"
    by (simp add: eval_nat_numeral All_less_Suc digit_char_def hex_digit_def)
  then show "d < 16 \<Longrightarrow> digit_char d = hex_digit d"
    by blast
qed

lemma byte_hex:
  "padStart 2 (CHR ''0'') (nat_toString 16 (unat b)) =
     [hex_digit (unat b div 16), hex_digit (unat b mod 16)]" for b :: byte
proof -
  have small: "unat b < 256"
    using unsigned_less [of b] by simp
  show ?thesis
  proof (cases "unat b < 16")
    case True
    then show ?thesis
      by (simp add: nat_toString.simps [of 16 "unat b"] padStart_def digit_hex)
         (simp add: hex_digit_def)
  next
    case False
    from small have "unat b div 16 < 16"
      by simp
    then have "nat_toString 16 (unat b div 16) = [hex_digit (unat b div 16)]"
      by (simp add: nat_toString.simps [of 16 "unat b div 16"] digit_hex)
    with False show ?thesis
      by (simp add: nat_toString.simps [of 16 "unat b"] padStart_def digit_hex)
  qed
qed

lemma hex_lowercase: "hex bs = lowercase_hex bs"
  by (simp add: hex_def lowercase_hex_def join_empty byte_hex)

lemma js_toString_nat:
  "n \<le> 2 ^ 53 \<Longrightarrow> js_toString P (Fin (real n)) = nat_toString 10 n"
proof -
  assume "n \<le> 2 ^ 53"
  then have "real n \<le> real (2 ^ 53)"
    by (simp only: of_nat_le_iff)
  then have "real n \<le> 2 ^ 53"
    by simp
  then show ?thesis
    by (simp add: int_digits_def)
qed

subsection \<open>The engine\<close>

lemma loadShards_layers:
  "layers (loadShards e shs) = map NeuralLayer (concat (map shardLayers shs))"
proof -
  have "foldl (\<lambda>ls shard. foldl (\<lambda>ls layerConfig. ls @ [NeuralLayer layerConfig]) ls (shardLayers shard))
          acc shs
        = acc @ map NeuralLayer (concat (map shardLayers shs))" for acc
    by (induction shs arbitrary: acc) (simp_all add: push_loop)
  then show ?thesis by (simp add: loadShards_def)
qed

lemma generateProof_outputHashes:
  "outputHashes (generateProof P this now tId sId n outs pred) = map (hashTensor P) outs"
  by (simp add: generateProof_def Let_def push_loop)

lemma generateProof_proofHash:
  "proofHash (generateProof P this now tId sId n outs pred) =
   hashData P (Text (tId @ '':'' @ sId @ '':'' @ js_toString P n @ '':'' @
      concat (map (\<lambda>h. h @ '':'') (map (hashTensor P) outs)) @ stringify P pred))"
  by (simp add: generateProof_def Let_def push_loop join_Cons join_snoc del: hashData.simps)



lemma run_layers_outputs:
  "run_layers P clock cb n i ls cur outs ts rep = (rep', Inr (cur', outs', ts')) \<Longrightarrow>
   \<exists>new. outs' = outs @ new \<and> length new = length ls \<and> chained P cur ls new \<and>
      cur' = last (cur # new) \<and> length ts' = length ts + length ls"
proof (induction ls arbitrary: i cur outs ts rep)
  case Nil
  then show ?case by auto
next
  case (Cons l ls)
  from Cons.prems obtain out where out: "forward P l cur = Inr out"
    by (cases "forward P l cur") simp_all
  with Cons.prems
  have "run_layers P clock cb n (Suc i) ls out (outs @ [out])
          (ts @ [clock (2 * i + 2) - clock (2 * i + 1)])
          (if cb then rep @ [js_div (num (i + 1)) (num n)] else rep) = (rep', Inr (cur', outs', ts'))"
    by simp
  from Cons.IH [OF this] obtain new where
    "outs' = (outs @ [out]) @ new" "length new = length ls" "chained P out ls new"
    "cur' = last (out # new)"
    "length ts' = length (ts @ [clock (2 * i + 2) - clock (2 * i + 1)]) + length ls"
    by blast
  with out show ?case
    by (intro exI [of _ "out # new"]) simp
qed

lemma run_layers_clock:
  "map_sum id (\<lambda>(cur, outs, ts). (cur, outs)) (snd (run_layers P clock1 cb n i ls cur outs ts1 rep)) =
   map_sum id (\<lambda>(cur, outs, ts). (cur, outs)) (snd (run_layers P clock2 cb n i ls cur outs ts2 rep))"
proof (induction ls arbitrary: i cur outs ts1 ts2 rep)
  case Nil
  show ?case by simp
next
  case (Cons l ls)
  show ?case
  proof (cases "forward P l cur")
    case (Inl e)
    then show ?thesis by simp
  next
    case (Inr out)
    then show ?thesis
      using Cons.IH [of "Suc i" out "outs @ [out]"] by simp
  qed
qed

lemma executeShards_replay:
  assumes "executeShards P clock1 now1 engine1 task = (engine1', reported1, Inr res1)"
    and "executeShards P clock2 now2 engine2 task = (engine2', reported2, Inr res2)"
  shows "layerOutputs res1 = layerOutputs res2 \<and> resultPrediction res1 = resultPrediction res2 \<and>
     proofHash (resultProof res1) = proofHash (resultProof res2)"
proof -
  let ?ls = "map NeuralLayer (concat (map shardLayers (shards task)))"
  from assms(1) obtain input where input:
    "decodeInput P (inputData task) (taskInputShape task) = Inr input"
    by (cases "decodeInput P (inputData task) (taskInputShape task)")
       (simp_all add: executeShards_def Let_def)
  from assms(1) input obtain cur1 outs1 ts1 where run1:
    "run_layers P clock1 (onProgress task) (length ?ls) 0 ?ls input [] [] [] =
       (reported1, Inr (cur1, outs1, ts1))"
    by (auto simp: executeShards_def Let_def loadShards_layers split: sum.splits prod.splits)
  from assms(2) input obtain cur2 outs2 ts2 where run2:
    "run_layers P clock2 (onProgress task) (length ?ls) 0 ?ls input [] [] [] =
       (reported2, Inr (cur2, outs2, ts2))"
    by (auto simp: executeShards_def Let_def loadShards_layers split: sum.splits prod.splits)
  from run_layers_clock [of P clock1 "onProgress task" "length ?ls" 0 ?ls input "[]" "[]" "[]" clock2 "[]"]
    run1 run2
  have same: "cur1 = cur2" "outs1 = outs2"
    by simp_all
  let ?pred = "generatePrediction P cur1 (case labels task of None \<Rightarrow> [] | Some ls \<Rightarrow> ls)"
  from assms(1) input run1 have res1: "layerOutputs res1 = outs1" "resultPrediction res1 = ?pred"
    "resultProof res1 = generateProof P (loadShards engine1 (shards task)) now1 (taskId task)
        (sampleId task) (expectedLayers task) outs1 ?pred"
    by (auto simp: executeShards_def Let_def loadShards_layers)
  from assms(2) input run2 same have res2: "layerOutputs res2 = outs1" "resultPrediction res2 = ?pred"
    "resultProof res2 = generateProof P (loadShards engine2 (shards task)) now2 (taskId task)
        (sampleId task) (expectedLayers task) outs1 ?pred"
    by (auto simp: executeShards_def Let_def loadShards_layers)
  show ?thesis
    by (simp add: res1 res2 generateProof_def Let_def)
qed

lemma executeShards_layers:
  "executeShards P clock now this task = (this', reported, r) \<Longrightarrow>
   layers this' = map NeuralLayer (concat (map shardLayers (shards task)))"
  by (auto simp: executeShards_def Let_def loadShards_layers split: sum.splits prod.splits)

lemma length_chunks4: "length (chunks4 bs) = length bs div 4"
  by (induction bs rule: chunks4.induct) simp_all


subsection \<open>The session\<close>

lemma try_catch_call:
  "try_catch (call_listener cbs l st) console_error W = (Inr (), listener_step cbs st W l)"
  by (cases "cbs l st (user W)")
     (auto simp: try_catch_def call_listener_def console_error_def listener_step_def
        split: sum.splits)

lemma notify_loop:
  "for_of ls (\<lambda>l. try_catch (call_listener cbs l st) console_error) W =
     (Inr (), foldl (listener_step cbs st) W ls)"
  by (induction ls arbitrary: W) (simp_all add: try_catch_call)

lemma notified_step: "notified (listener_step cbs st W l) = notified W @ [(l, st)]"
  by (simp add: listener_step_def split: prod.splits)

lemma notified_steps:
  "notified (foldl (listener_step cbs st) W ls) = notified W @ map (\<lambda>l. (l, st)) ls"
  by (induction ls arbitrary: W) (simp_all add: notified_step)

lemma subscribe_all:
  "distinct ls \<Longrightarrow> set ls \<inter> set (stateListeners s) = {} \<Longrightarrow>
   foldl onStateChange s ls = s\<lparr>stateListeners := stateListeners s @ ls\<rparr>"
proof (induction ls arbitrary: s)
  case Nil
  then show ?case by simp
next
  case (Cons l ls)
  let ?s = "onStateChange s l"
  from Cons.prems have s: "?s = s\<lparr>stateListeners := stateListeners s @ [l]\<rparr>"
    by (simp add: onStateChange_def)
  with Cons.prems have "distinct ls" "set ls \<inter> set (stateListeners ?s) = {}"
    by auto
  from Cons.IH [OF this] s show ?case by simp
qed

subsection \<open>The wait\<close>

lemma poll_quiet:
  "session w = Some s \<Longrightarrow> \<not> isCompleted s \<Longrightarrow> state s \<noteq> Error \<Longrightarrow> \<not> isExpired s now \<Longrightarrow>
   poll now w = w"
  by (simp add: poll_def split: option.splits)

lemma stuck:
  "\<not> checkComplete w \<Longrightarrow> \<not> timeoutArmed w \<Longrightarrow>
   promise (foldl step w evs) = promise w \<and> \<not> checkComplete (foldl step w evs) \<and>
   \<not> timeoutArmed (foldl step w evs)"
proof (induction evs arbitrary: w)
  case Nil
  then show ?case by simp
next
  case (Cons e evs)
  obtain t a where e: "e = (t, a)" by (cases e)
  from Cons.prems have "promise (step w e) = promise w \<and> \<not> checkComplete (step w e) \<and>
      \<not> timeoutArmed (step w e)"
    unfolding e by (cases a) simp_all
  with Cons.IH [of "step w e"] show ?case by simp
qed

lemma late_run:
  "foldl step (fst (waitForVerification (Some verifying_session) 0)) late_schedule =
     \<lparr>session = Some verified_session, promise = Pending, checkComplete = False, timeoutArmed = False\<rparr>"
proof -
  have quiet: "poll t \<lparr>session = Some verifying_session, promise = Pending, checkComplete = True,
        timeoutArmed = True\<rparr> =
      \<lparr>session = Some verifying_session, promise = Pending, checkComplete = True, timeoutArmed = True\<rparr>"
    if "t < 1000" for t
    using that
    by (intro poll_quiet [of _ verifying_session])
       (simp_all add: verifying_session_def CaptchaSession_def isCompleted_def isExpired_def)
  have completed: "isCompleted verified_session"
    by (simp add: verified_session_def isCompleted_def)
  show ?thesis
    by (simp add: waitForVerification_def late_schedule_def quiet on_timeout_def completed)
qed

lemma delay_is_remaining:
  "\<not> isExpired s now \<Longrightarrow> timeoutDelay (Some s) now = expiresAt s - now"
  by (simp add: timeoutDelay_def getTimeRemaining_def isExpired_def)

lemma deadline_rejects:
  assumes "timeoutArmed w" and "promise w = Pending"
    and "case session w of None \<Rightarrow> True | Some s \<Rightarrow> \<not> isCompleted s"
  shows "promise (foldl step (step w (t, Timeout)) later) =
     Rejected (CaptchaError TIMEOUT_ERROR ''Verification timeout'')"
proof -
  let ?w = "step w (t, Timeout)"
  from assms have "promise ?w = Rejected (CaptchaError TIMEOUT_ERROR ''Verification timeout'')"
    "\<not> checkComplete ?w" "\<not> timeoutArmed ?w"
    by (simp_all add: on_timeout_def settle_def)
  with stuck [of ?w later] show ?thesis by simp
qed

subsection \<open>The examples\<close>

text \<open>The literals of the example as binary32 numbers, and the layer made of them.\<close>

lemma literals:
  "to_float32 (literal (1 / 10)) = Fin (13421773 / 134217728)"
  "to_float32 (literal (1 / 5)) = Fin (13421773 / 67108864)"
  "to_float32 (literal (3 / 10)) = Fin (5033165 / 16777216)"
  "to_float32 (literal (2 / 5)) = Fin (13421773 / 33554432)"
  "to_float32 (literal (1 / 2)) = Fin (1 / 2)"
  "to_float32 (literal (3 / 5)) = Fin (5033165 / 8388608)"
  "to_float32 (literal (7 / 10)) = Fin (11744051 / 16777216)"
  "to_float32 (literal (4 / 5)) = Fin (13421773 / 16777216)"
proof -
  have "literal (1 / 10) = Fin (3602879701896397 / 2 ^ 55)"
    unfolding literal_def by (subst round64_at [of "- 4"]) (simp_all add: round_even_def Let_def)
  moreover have "round32 (3602879701896397 / 2 ^ 55) = Fin (13421773 / 134217728)"
    by (subst round32_at [of "- 4"]) (simp_all add: round_even_def Let_def)
  ultimately show "to_float32 (literal (1 / 10)) = Fin (13421773 / 134217728)"
    by simp
  have "literal (1 / 5) = Fin (3602879701896397 / 2 ^ 54)"
    unfolding literal_def by (subst round64_at [of "- 3"]) (simp_all add: round_even_def Let_def)
  moreover have "round32 (3602879701896397 / 2 ^ 54) = Fin (13421773 / 67108864)"
    by (subst round32_at [of "- 3"]) (simp_all add: round_even_def Let_def)
  ultimately show "to_float32 (literal (1 / 5)) = Fin (13421773 / 67108864)"
    by simp
  have "literal (3 / 10) = Fin (5404319552844595 / 2 ^ 54)"
    unfolding literal_def by (subst round64_at [of "- 2"]) (simp_all add: round_even_def Let_def)
  moreover have "round32 (5404319552844595 / 2 ^ 54) = Fin (5033165 / 16777216)"
    by (subst round32_at [of "- 2"]) (simp_all add: round_even_def Let_def)
  ultimately show "to_float32 (literal (3 / 10)) = Fin (5033165 / 16777216)"
    by simp
  have "literal (2 / 5) = Fin (3602879701896397 / 2 ^ 53)"
    unfolding literal_def by (subst round64_at [of "- 2"]) (simp_all add: round_even_def Let_def)
  moreover have "round32 (3602879701896397 / 2 ^ 53) = Fin (13421773 / 33554432)"
    by (subst round32_at [of "- 2"]) (simp_all add: round_even_def Let_def)
  ultimately show "to_float32 (literal (2 / 5)) = Fin (13421773 / 33554432)"
    by simp
  have "literal (1 / 2) = Fin (1 / 2)"
    unfolding literal_def by (subst round64_at [of "- 1"]) (simp_all add: round_even_def Let_def)
  moreover have "round32 (1 / 2) = Fin (1 / 2)"
    by (subst round32_at [of "- 1"]) (simp_all add: round_even_def Let_def)
  ultimately show "to_float32 (literal (1 / 2)) = Fin (1 / 2)"
    by simp
  have "literal (3 / 5) = Fin (5404319552844595 / 2 ^ 53)"
    unfolding literal_def by (subst round64_at [of "- 1"]) (simp_all add: round_even_def Let_def)
  moreover have "round32 (5404319552844595 / 2 ^ 53) = Fin (5033165 / 8388608)"
    by (subst round32_at [of "- 1"]) (simp_all add: round_even_def Let_def)
  ultimately show "to_float32 (literal (3 / 5)) = Fin (5033165 / 8388608)"
    by simp
  have "literal (7 / 10) = Fin (3152519739159347 / 2 ^ 52)"
    unfolding literal_def by (subst round64_at [of "- 1"]) (simp_all add: round_even_def Let_def)
  moreover have "round32 (3152519739159347 / 2 ^ 52) = Fin (11744051 / 16777216)"
    by (subst round32_at [of "- 1"]) (simp_all add: round_even_def Let_def)
  ultimately show "to_float32 (literal (7 / 10)) = Fin (11744051 / 16777216)"
    by simp
  have "literal (4 / 5) = Fin (3602879701896397 / 2 ^ 52)"
    unfolding literal_def by (subst round64_at [of "- 1"]) (simp_all add: round_even_def Let_def)
  moreover have "round32 (3602879701896397 / 2 ^ 52) = Fin (13421773 / 16777216)"
    by (subst round32_at [of "- 1"]) (simp_all add: round_even_def Let_def)
  ultimately show "to_float32 (literal (4 / 5)) = Fin (13421773 / 16777216)"
    by simp
qed

lemma example_layer_fields:
  "example_layer =
     \<lparr>name = ''dense_1'', type = ''dense'',
      weights = map Fin [13421773 / 134217728, 13421773 / 67108864, 5033165 / 16777216,
        13421773 / 33554432, 1 / 2, 5033165 / 8388608, 11744051 / 16777216, 13421773 / 16777216],
      biases = map Fin [13421773 / 134217728, 13421773 / 134217728],
      inputShape = [1, 4], outputShape = [1, 2], activation = ''linear''\<rparr>"
  by (simp add: example_layer_def NeuralLayer_def example_config_def literals)


lemma float32_values:
  "round32 (13421773 / 134217728) = Fin (13421773 / 134217728)"
  "round32 (13421773 / 67108864) = Fin (13421773 / 67108864)"
  "round32 (5033165 / 16777216) = Fin (5033165 / 16777216)"
  "round32 (13421773 / 33554432) = Fin (13421773 / 33554432)"
  "round32 (1 / 2) = Fin (1 / 2)"
  "round32 (5033165 / 8388608) = Fin (5033165 / 8388608)"
  "round32 (11744051 / 16777216) = Fin (11744051 / 16777216)"
  "round32 (13421773 / 16777216) = Fin (13421773 / 16777216)"
  "round32 0 = Fin 0"
  "round32 1 = Fin 1"
  unfolding round32_def
  by (rule fround_exact [of _ 13421773 "- 27"], simp_all)
     (rule fround_exact [of _ 13421773 "- 26"], simp_all,
      rule fround_exact [of _ 5033165 "- 24"], simp_all,
      rule fround_exact [of _ 13421773 "- 25"], simp_all,
      rule fround_exact [of _ 1 "- 1"], simp_all,
      rule fround_exact [of _ 5033165 "- 23"], simp_all,
      rule fround_exact [of _ 11744051 "- 24"], simp_all,
      rule fround_exact [of _ 13421773 "- 24"], simp_all,
      simp add: fround_def,
      rule fround_exact [of _ 1 0], simp_all)

lemma example_layer_stays: "NeuralLayer example_layer = example_layer"
  by (simp add: example_layer_fields NeuralLayer_def float32_values)

lemma second_layer_stays: "NeuralLayer second_layer = second_layer"
  by (simp add: second_layer_def NeuralLayer_def float32_values)

lemma example_dense:
  "denseForward example_platform example_layer (map Fin [1, 2, 3, 4]) =
     Inr [Fin (13002343 / 4194304), Fin (14889779 / 2097152)]"
proof -
  let ?ws = "[13421773 / 134217728, 13421773 / 67108864, 5033165 / 16777216,
        13421773 / 33554432, 1 / 2, 5033165 / 8388608, 11744051 / 16777216,
        13421773 / 16777216] :: real list"
  let ?bs = "[13421773 / 134217728, 13421773 / 134217728] :: real list"
  let ?xs = "[1, 2, 3, 4] :: real list"
  have shape: "inputShape example_layer \<noteq> []" "last (inputShape example_layer) = int 4"
    "outputShape example_layer \<noteq> []" "last (outputShape example_layer) = int 2"
    by (simp_all add: example_layer_fields)
  have fin: "map Fin [1, 2, 3, 4] = map Fin ?xs" "weights example_layer = map Fin ?ws"
    "biases example_layer = map Fin ?bs"
    by (simp_all add: example_layer_fields)
  have sizes: "4 \<le> length ?xs" "2 * 4 \<le> length ?ws" "2 \<le> length ?bs" "(2::nat) * 4 < 2 ^ 53"
    by simp_all
  have sum0: "dense_sum example_layer (map Fin [1, 2, 3, 4]) (lastDim (inputShape example_layer)) 0 =
      Fin (?bs ! 0 + (\<Sum>i<4. ?xs ! i * ?ws ! (0 * 4 + i)))"
    by (rule dense_sum_exact [OF shape(1,2) _ sizes(4) fin sizes(1-3), of _ "- 27"])
       (simp_all add: on_grid_def eval_nat_numeral All_less_Suc)
  have sum1: "dense_sum example_layer (map Fin [1, 2, 3, 4]) (lastDim (inputShape example_layer)) 1 =
      Fin (?bs ! 1 + (\<Sum>i<4. ?xs ! i * ?ws ! (1 * 4 + i)))"
    by (rule dense_sum_exact [OF shape(1,2) _ sizes(4) fin sizes(1-3), of _ "- 27"])
       (simp_all add: on_grid_def eval_nat_numeral All_less_Suc)
  have r0: "round32 (208037483 / 67108864) = Fin (13002343 / 4194304)"
    by (subst round32_at [of 1]) (simp_all add: round_even_def Let_def)
  have r1: "round32 (952945877 / 134217728) = Fin (14889779 / 2097152)"
    by (subst round32_at [of 2]) (simp_all add: round_even_def Let_def)
  have "denseForward example_platform example_layer (map Fin [1, 2, 3, 4]) =
      Inr (map (\<lambda>o'. to_float32 (dense_sum example_layer (map Fin [1, 2, 3, 4])
                 (lastDim (inputShape example_layer)) o')) [0..<2])"
    by (rule denseForward_closed [OF shape(3,4)]) (simp add: example_platform_def)
  also have "[0..<2] = [0, 1]"
    by (simp add: eval_nat_numeral)
  finally have run: "denseForward example_platform example_layer (map Fin [1, 2, 3, 4]) =
      Inr [to_float32 (dense_sum example_layer (map Fin [1, 2, 3, 4])
                 (lastDim (inputShape example_layer)) 0),
           to_float32 (dense_sum example_layer (map Fin [1, 2, 3, 4])
                 (lastDim (inputShape example_layer)) 1)]"
    by simp
  have "to_float32 (dense_sum example_layer (map Fin [1, 2, 3, 4])
          (lastDim (inputShape example_layer)) 0) = Fin (13002343 / 4194304)"
    unfolding sum0 by (simp add: eval_nat_numeral r0)
  moreover have "to_float32 (dense_sum example_layer (map Fin [1, 2, 3, 4])
          (lastDim (inputShape example_layer)) 1) = Fin (14889779 / 2097152)"
    unfolding sum1 by (simp add: eval_nat_numeral r1)
  ultimately show ?thesis
    unfolding run by (simp only:)
qed

lemma example_forward:
  "forward example_platform example_layer (map Fin [1, 2, 3, 4]) =
     Inr [Fin (13002343 / 4194304), Fin (14889779 / 2097152)]"
  using example_dense by (simp add: forward_def applyActivation_def example_layer_fields)

text \<open>A sum beyond the range of binary32 is stored as an infinity.\<close>

lemma large_forward:
  "forward example_platform large_layer (map Fin [2 ^ 29]) = Inr [PosInf]"
proof -
  have shape: "inputShape large_layer \<noteq> []" "last (inputShape large_layer) = int 1"
    "outputShape large_layer \<noteq> []" "last (outputShape large_layer) = int 1"
    by (simp_all add: large_layer_def)
  have "dense_sum large_layer (map Fin [2 ^ 29]) (lastDim (inputShape large_layer)) 0 =
      Fin ([0] ! 0 + (\<Sum>i<1. [2 ^ 29] ! i * [2 ^ 100] ! (0 * 1 + i)))"
    by (rule dense_sum_exact [OF shape(1,2), of 0 1 _ _ _ _ 77])
       (simp_all add: large_layer_def on_grid_def)
  then have sum: "dense_sum large_layer (map Fin [2 ^ 29]) (lastDim (inputShape large_layer)) 0 =
      Fin (2 ^ 129)"
    by simp
  have "round32 (2 ^ 129) = PosInf"
    by (subst round32_at [of 129]) (simp_all add: round_even_def Let_def)
  with sum have "denseForward example_platform large_layer (map Fin [2 ^ 29]) = Inr [PosInf]"
    by (simp add: denseForward_closed [OF shape(3,4)] example_platform_def)
  then show ?thesis
    by (simp add: forward_def applyActivation_def large_layer_def)
qed

lemma example_decode:
  "decodeInput example_platform (inputData example_task) shp = Inr (map Fin [1, 2, 3, 4])"
  by (simp add: decodeInput_def example_task_def example_platform_def strip_data_url_def
      starts_with_def Float32Array_of_buffer_def)

lemma example_run:
  "run_layers example_platform clock True 1 0 [example_layer] (map Fin [1, 2, 3, 4]) [] [] [] =
     ([Fin 1], Inr ([Fin (13002343 / 4194304), Fin (14889779 / 2097152)],
        [[Fin (13002343 / 4194304), Fin (14889779 / 2097152)]], [clock 2 - clock 1]))"
  using example_forward by (simp add: num_def numeral_2_eq_2)

lemma example_execute_any:
  "\<exists>res. executeShards example_platform clock now \<lparr>layers = ls0\<rparr> example_task =
     (\<lparr>layers = [example_layer]\<rparr>, [Fin 1], Inr res) \<and>
     layerOutputs res = [[Fin (13002343 / 4194304), Fin (14889779 / 2097152)]]"
proof -
  have load: "loadShards \<lparr>layers = ls0\<rparr> (shards example_task) = \<lparr>layers = [example_layer]\<rparr>"
    by (simp add: loadShards_def example_task_def example_shard_def example_layer_stays)
  have cb: "onProgress example_task"
    by (simp add: example_task_def)
  show ?thesis
    by (simp add: executeShards_def Let_def example_decode load cb example_run [simplified])
qed

lemma example_execute:
  "\<exists>res. executeShards example_platform clock now \<lparr>layers = []\<rparr> example_task =
     (\<lparr>layers = [example_layer]\<rparr>, [Fin 1], Inr res) \<and>
     layerOutputs res = [[Fin (13002343 / 4194304), Fin (14889779 / 2097152)]]"
  by (rule example_execute_any)

lemma example_hash:
  "map (\<lambda>output. lowercase_hex (digest example_platform
          (concat (map (float32_bytes example_platform) output))))
     [[Fin (13002343 / 4194304), Fin (14889779 / 2097152)]] = [''0307'']"
  by (simp add: lowercase_hex_def example_platform_def hex_digit_def)


section \<open>The layers\<close>

text \<open>
  C2. The claim is that entry \<open>o\<close> of the output of a dense layer is \<open>bias[o]\<close> plus the
  sum over \<open>i < inputSize\<close> of \<open>input[i] * weight[o * inputSize + i]\<close>, and that the
  layer with the weights 0.1 to 0.8 and the biases 0.1 gives 3.1 and 7.1 on the input
  1, 2, 3, 4. The layer holds its weights and biases in binary32, the loop adds in
  binary64 and the output is binary32 again: the output of the example is
  \<open>13002343 / 2\<^sup>2\<^sup>2\<close> and \<open>14889779 / 2\<^sup>2\<^sup>1\<close> (3.1000001430511475 and
  7.099999904632568), neither the reals 3.1 and 7.1 nor the numbers that these literals
  denote.
\<close>

theorem denseForward_example_counterexample:
  "denseForward example_platform (NeuralLayer example_config) (map Fin [1, 2, 3, 4]) =
     Inr [Fin (13002343 / 4194304), Fin (14889779 / 2097152)] \<and>
   activation (NeuralLayer example_config) = ''linear'' \<and>
   forward example_platform (NeuralLayer example_config) (map Fin [1, 2, 3, 4]) =
     Inr [Fin (13002343 / 4194304), Fin (14889779 / 2097152)] \<and>
   forward example_platform (NeuralLayer example_config) (map Fin [1, 2, 3, 4]) \<noteq>
     Inr [Fin (31 / 10), Fin (71 / 10)] \<and>
   forward example_platform (NeuralLayer example_config) (map Fin [1, 2, 3, 4]) \<noteq>
     Inr [literal (31 / 10), literal (71 / 10)]"
proof -
  have "literal (31 / 10) = Fin (6980579422424269 / 2 ^ 51)"
    unfolding literal_def by (subst round64_at [of 1]) (simp_all add: round_even_def Let_def)
  then have "literal (31 / 10) \<noteq> Fin (13002343 / 4194304)"
    by simp
  moreover have "activation (NeuralLayer example_config) = ''linear''"
    by (simp add: NeuralLayer_def example_config_def)
  ultimately show ?thesis
    using example_dense example_forward by (simp add: example_layer_def)
qed

text \<open>
  C2, as amended. For a dense layer whose input has trailing dimension \<open>inputSize\<close>
  and whose output has trailing dimension \<open>outputSize\<close>, the output before activation
  has \<open>outputSize\<close> entries, and entry \<open>o\<close> is the binary32 number nearest to the sum
  that starts at \<open>bias[o]\<close> and takes the products \<open>input[i] * weight[o * inputSize + i]\<close>
  for \<open>i\<close> from 0 up, each product and each partial sum rounded to binary64. Where
  the bias and the products are multiples of one power of two and their absolute values
  add up to less than \<open>2\<^sup>5\<^sup>3\<close> times that power, no step in binary64 rounds, and the
  entry is the binary32 number nearest to the sum of the claim. With the linear
  activation this is what \<open>forward\<close> returns. (The output size is within what the
  engine allocates, and the indices are below \<open>2\<^sup>5\<^sup>3\<close>.)
\<close>

theorem denseForward_rounded:
  assumes "inputShape L \<noteq> []" "last (inputShape L) = int inputSize"
    and "outputShape L \<noteq> []" "last (outputShape L) = int outputSize"
    and "outputSize \<le> maxLength P" "outputSize * inputSize < 2 ^ 53"
  shows "\<exists>output. denseForward P L input = Inr output \<and> length output = outputSize \<and>
     (\<forall>o' < outputSize. output ! o' =
        to_float32
          (foldl (\<lambda>sum i. js_add sum (js_mul (elem input (num i))
                                         (elem (weights L) (num (o' * inputSize + i)))))
             (elem (biases L) (num o')) [0..<inputSize])) \<and>
     (\<forall>xs ws bs s o'.
         input = map Fin xs \<and> weights L = map Fin ws \<and> biases L = map Fin bs \<and>
         inputSize \<le> length xs \<and> outputSize * inputSize \<le> length ws \<and> outputSize \<le> length bs \<and>
         o' < outputSize \<and> - 1074 \<le> s \<and> s \<le> 971 \<and> on_grid s (bs ! o') \<and>
         (\<forall>i<inputSize. on_grid s (xs ! i * ws ! (o' * inputSize + i))) \<and>
         \<bar>bs ! o'\<bar> + (\<Sum>i<inputSize. \<bar>xs ! i * ws ! (o' * inputSize + i)\<bar>) < 2 powi (s + 53) \<longrightarrow>
         output ! o' = round32 (bs ! o' + (\<Sum>i<inputSize. xs ! i * ws ! (o' * inputSize + i)))) \<and>
     ((type L = ''dense'' \<or> type L = ''fully_connected'') \<and> activation L = ''linear'' \<longrightarrow>
        forward P L input = Inr output)"
proof -
  let ?out = "map (\<lambda>o'. to_float32 (dense_sum L input (lastDim (inputShape L)) o')) [0..<outputSize]"
  have run: "denseForward P L input = Inr ?out"
    using assms(3-5) by (rule denseForward_closed)
  have general: "?out ! o' =
        to_float32
          (foldl (\<lambda>sum i. js_add sum (js_mul (elem input (num i))
                                         (elem (weights L) (num (o' * inputSize + i)))))
             (elem (biases L) (num o')) [0..<inputSize])" if "o' < outputSize" for o'
    using that by (simp add: dense_sum_closed [OF assms(1,2) that assms(6)])
  have exact: "?out ! o' = round32 (bs ! o' + (\<Sum>i<inputSize. xs ! i * ws ! (o' * inputSize + i)))"
    if "input = map Fin xs" "weights L = map Fin ws" "biases L = map Fin bs"
      "inputSize \<le> length xs" "outputSize * inputSize \<le> length ws" "outputSize \<le> length bs"
      "o' < outputSize" "- 1074 \<le> s" "s \<le> 971" "on_grid s (bs ! o')"
      "\<forall>i<inputSize. on_grid s (xs ! i * ws ! (o' * inputSize + i))"
      "\<bar>bs ! o'\<bar> + (\<Sum>i<inputSize. \<bar>xs ! i * ws ! (o' * inputSize + i)\<bar>) < 2 powi (s + 53)"
    for xs ws bs s o'
    using that(7)
    by (simp add: dense_sum_exact [OF assms(1,2) that(7) assms(6) that(1-6) that(8-12)])
  have linear: "forward P L input = Inr ?out"
    if "type L = ''dense'' \<or> type L = ''fully_connected''" "activation L = ''linear''"
    using that run by (auto simp: forward_def applyActivation_def)
  show ?thesis
  proof (intro exI [of _ ?out] conjI allI impI)
    show "denseForward P L input = Inr ?out" by (rule run)
    show "length ?out = outputSize" by simp
  qed (use general exact linear in blast)+
qed

theorem denseForward_rounded_witness:
  "denseForward example_platform example_layer (map Fin [1, 2, 3, 4]) =
     Inr [round32 (208037483 / 67108864), round32 (952945877 / 134217728)] \<and>
   forward example_platform example_layer (map Fin [1, 2, 3, 4]) =
     Inr [Fin (13002343 / 4194304), Fin (14889779 / 2097152)]"
proof -
  let ?ws = "[13421773 / 134217728, 13421773 / 67108864, 5033165 / 16777216,
        13421773 / 33554432, 1 / 2, 5033165 / 8388608, 11744051 / 16777216,
        13421773 / 16777216] :: real list"
  let ?bs = "[13421773 / 134217728, 13421773 / 134217728] :: real list"
  let ?xs = "[1, 2, 3, 4] :: real list"
  have shape: "inputShape example_layer \<noteq> []" "last (inputShape example_layer) = int 4"
    "outputShape example_layer \<noteq> []" "last (outputShape example_layer) = int 2"
    "2 \<le> maxLength example_platform" "(2::nat) * 4 < 2 ^ 53"
    by (simp_all add: example_layer_fields example_platform_def)
  from denseForward_rounded [OF shape, of "map Fin [1, 2, 3, 4]"] obtain out where
    run: "denseForward example_platform example_layer (map Fin [1, 2, 3, 4]) = Inr out"
    and len: "length out = 2"
    and exact: "\<And>xs ws bs s o'. map Fin [1, 2, 3, 4] = map Fin xs \<Longrightarrow>
        weights example_layer = map Fin ws \<Longrightarrow> biases example_layer = map Fin bs \<Longrightarrow>
        4 \<le> length xs \<Longrightarrow> 2 * 4 \<le> length ws \<Longrightarrow> 2 \<le> length bs \<Longrightarrow> o' < 2 \<Longrightarrow>
        - 1074 \<le> s \<Longrightarrow> s \<le> 971 \<Longrightarrow> on_grid s (bs ! o') \<Longrightarrow>
        \<forall>i<4. on_grid s (xs ! i * ws ! (o' * 4 + i)) \<Longrightarrow>
        \<bar>bs ! o'\<bar> + (\<Sum>i<4. \<bar>xs ! i * ws ! (o' * 4 + i)\<bar>) < 2 powi (s + 53) \<Longrightarrow>
        out ! o' = round32 (bs ! o' + (\<Sum>i<4. xs ! i * ws ! (o' * 4 + i)))"
    and linear: "(type example_layer = ''dense'' \<or> type example_layer = ''fully_connected'') \<and>
        activation example_layer = ''linear'' \<longrightarrow>
        forward example_platform example_layer (map Fin [1, 2, 3, 4]) = Inr out"
    by blast
  have "out ! 0 = round32 (?bs ! 0 + (\<Sum>i<4. ?xs ! i * ?ws ! (0 * 4 + i)))"
    by (rule exact [of ?xs ?ws ?bs 0 "- 27"])
       (simp_all add: example_layer_fields on_grid_def eval_nat_numeral All_less_Suc)
  then have out0: "out ! 0 = round32 (208037483 / 67108864)"
    by (simp add: eval_nat_numeral)
  have "out ! 1 = round32 (?bs ! 1 + (\<Sum>i<4. ?xs ! i * ?ws ! (1 * 4 + i)))"
    by (rule exact [of ?xs ?ws ?bs 1 "- 27"])
       (simp_all add: example_layer_fields on_grid_def eval_nat_numeral All_less_Suc)
  then have out1: "out ! 1 = round32 (952945877 / 134217728)"
    by (simp add: eval_nat_numeral)
  from len obtain a b where "out = [a, b]"
    by (auto simp: length_Suc_conv numeral_2_eq_2)
  with out0 out1 have out: "out = [round32 (208037483 / 67108864), round32 (952945877 / 134217728)]"
    by simp
  have r0: "round32 (208037483 / 67108864) = Fin (13002343 / 4194304)"
    by (subst round32_at [of 1]) (simp_all add: round_even_def Let_def)
  have r1: "round32 (952945877 / 134217728) = Fin (14889779 / 2097152)"
    by (subst round32_at [of 2]) (simp_all add: round_even_def Let_def)
  from linear have "forward example_platform example_layer (map Fin [1, 2, 3, 4]) = Inr out"
    by (simp add: example_layer_fields)
  with run show ?thesis
    unfolding out by (simp only: r0 r1 simp_thms)
qed

text \<open>
  C3. The claim is that a dense layer whose weight or bias length does not fit its shapes
  fails with a shape error. The layer of the example has one weight where eight are
  needed and no bias where two are needed, and its forward pass returns an output.
\<close>

theorem forward_dense_mismatch_counterexample:
  "length (weights mismatched_layer) \<noteq> 4 * 2 \<and> length (biases mismatched_layer) \<noteq> 2 \<and>
   lastDim (inputShape mismatched_layer) = Fin 4 \<and> lastDim (outputShape mismatched_layer) = Fin 2 \<and>
   forward example_platform mismatched_layer (map Fin [1, 2, 3, 4]) = Inr [NaN, NaN]"
proof -
  have shape: "inputShape mismatched_layer \<noteq> []" "last (inputShape mismatched_layer) = int 4"
    "outputShape mismatched_layer \<noteq> []" "last (outputShape mismatched_layer) = int 2"
    "2 \<le> maxLength example_platform"
    by (simp_all add: mismatched_layer_def example_layer_fields example_platform_def)
  have bias: "biases mismatched_layer = []"
    by (simp add: mismatched_layer_def)
  have "dense_sum mismatched_layer input (lastDim (inputShape mismatched_layer)) o' = NaN"
    if "o' < 2" for o' input
    by (simp add: dense_sum_closed [OF shape(1,2) that] elem_num bias foldl_js_add_NaN)
  then have "denseForward example_platform mismatched_layer input = Inr [NaN, NaN]" for input
    by (simp add: denseForward_closed [OF shape(3,4,5)] eval_nat_numeral)
  then show ?thesis
    by (simp add: forward_def applyActivation_def lastDim_def mismatched_layer_def
        example_layer_fields)
qed

text \<open>
  C3, as amended. The forward pass of a dense layer checks no length and raises no shape
  error. With trailing dimensions \<open>inputSize\<close> and \<open>outputSize\<close> it throws the
  \<^verbatim>\<open>RangeError\<close> of \<^verbatim>\<open>new Float32Array\<close> when \<open>outputSize\<close> is more than the
  engine allocates, whatever the lengths of the weights and biases; otherwise, whatever
  these lengths, it returns \<open>outputSize\<close> entries, and before activation the entry
  \<open>o\<close> is \<open>NaN\<close> whenever the bias index \<open>o\<close> or one of the weight indices
  \<open>o * inputSize + i\<close>, \<open>i < inputSize\<close>, is out of range. Weights from the index
  \<open>outputSize * inputSize\<close> on and biases from \<open>outputSize\<close> on are never read: a
  layer that differs in them only returns the same. (The indices are below \<open>2\<^sup>5\<^sup>3\<close>.)
\<close>

theorem forward_dense_unchecked:
  assumes "type L = ''dense'' \<or> type L = ''fully_connected''"
    and "inputShape L \<noteq> []" "last (inputShape L) = int inputSize"
    and "outputShape L \<noteq> []" "last (outputShape L) = int outputSize"
    and "outputSize * inputSize < 2 ^ 53"
  shows "(maxLength P < outputSize \<longrightarrow> forward P L input = Inl RangeError) \<and>
    (outputSize \<le> maxLength P \<longrightarrow>
      (\<exists>pre. denseForward P L input = Inr pre \<and> forward P L input = Inr (applyActivation L pre) \<and>
        length pre = outputSize \<and> length (applyActivation L pre) = outputSize \<and>
        (\<forall>o' < outputSize.
            length (biases L) \<le> o' \<or> (\<exists>i < inputSize. length (weights L) \<le> o' * inputSize + i) \<longrightarrow>
            pre ! o' = NaN) \<and>
        (\<forall>L'. type L' = type L \<and> activation L' = activation L \<and>
            inputShape L' = inputShape L \<and> outputShape L' = outputShape L \<and>
            take (outputSize * inputSize) (weights L') = take (outputSize * inputSize) (weights L) \<and>
            take outputSize (biases L') = take outputSize (biases L) \<longrightarrow>
            denseForward P L' input = Inr pre \<and> forward P L' input = Inr (applyActivation L pre))))"
proof (intro conjI impI)
  assume "maxLength P < outputSize"
  with assms(4,5) have "denseForward P L input = Inl RangeError"
    by (rule denseForward_too_long)
  with assms(1) show "forward P L input = Inl RangeError"
    by (auto simp: forward_def)
next
  assume fits: "outputSize \<le> maxLength P"
  let ?pre = "map (\<lambda>o'. to_float32 (dense_sum L input (lastDim (inputShape L)) o')) [0..<outputSize]"
  have run: "denseForward P L input = Inr ?pre"
    using assms(4,5) fits by (rule denseForward_closed)
  have fwd: "forward P L input = Inr (applyActivation L ?pre)"
    using assms(1) run by (auto simp: forward_def)
  have nan: "?pre ! o' = NaN"
    if "o' < outputSize"
      "length (biases L) \<le> o' \<or> (\<exists>i < inputSize. length (weights L) \<le> o' * inputSize + i)" for o'
  proof -
    let ?g = "\<lambda>i. js_mul (elem input (num i)) (elem (weights L) (num (o' * inputSize + i)))"
    have "foldl (\<lambda>sum i. js_add sum (?g i)) (elem (biases L) (num o')) [0..<inputSize] = NaN"
      using that(2)
    proof
      assume "length (biases L) \<le> o'"
      then show ?thesis by (simp add: elem_num foldl_js_add_NaN)
    next
      assume "\<exists>i < inputSize. length (weights L) \<le> o' * inputSize + i"
      then obtain i where i: "i < inputSize" "length (weights L) \<le> o' * inputSize + i"
        by blast
      then have "?g i = NaN"
        by (simp add: elem_num)
      moreover from i(1) have "i \<in> set [0..<inputSize]"
        by simp
      ultimately show ?thesis
        by (rule foldl_js_add_NaN_term [rotated])
    qed
    with that(1) show ?thesis
      by (simp add: dense_sum_closed [OF assms(2,3) that(1) assms(6)])
  qed
  have same: "denseForward P L' input = Inr ?pre \<and> forward P L' input = Inr (applyActivation L ?pre)"
    if "type L' = type L" "activation L' = activation L"
      "inputShape L' = inputShape L" "outputShape L' = outputShape L"
      "take (outputSize * inputSize) (weights L') = take (outputSize * inputSize) (weights L)"
      "take outputSize (biases L') = take outputSize (biases L)" for L'
  proof -
    have shape': "outputShape L' \<noteq> []" "last (outputShape L') = int outputSize"
      using assms(4,5) that(4) by simp_all
    have "dense_sum L' input (lastDim (inputShape L')) o' =
        dense_sum L input (lastDim (inputShape L)) o'" if "o' < outputSize" for o'
      using assms(2,3) that assms(6) \<open>inputShape L' = inputShape L\<close>
        \<open>take (outputSize * inputSize) (weights L') = take (outputSize * inputSize) (weights L)\<close>
        \<open>take outputSize (biases L') = take outputSize (biases L)\<close>
      by (rule dense_sum_surplus)
    then have "denseForward P L' input = Inr ?pre"
      by (simp add: denseForward_closed [OF shape' fits])
    moreover have "applyActivation L' = applyActivation L"
      using that(2) by (simp add: applyActivation_def fun_eq_iff)
    ultimately show ?thesis
      using assms(1) that(1) by (auto simp: forward_def)
  qed
  show "\<exists>pre. denseForward P L input = Inr pre \<and> forward P L input = Inr (applyActivation L pre) \<and>
        length pre = outputSize \<and> length (applyActivation L pre) = outputSize \<and>
        (\<forall>o' < outputSize.
            length (biases L) \<le> o' \<or> (\<exists>i < inputSize. length (weights L) \<le> o' * inputSize + i) \<longrightarrow>
            pre ! o' = NaN) \<and>
        (\<forall>L'. type L' = type L \<and> activation L' = activation L \<and>
            inputShape L' = inputShape L \<and> outputShape L' = outputShape L \<and>
            take (outputSize * inputSize) (weights L') = take (outputSize * inputSize) (weights L) \<and>
            take outputSize (biases L') = take outputSize (biases L) \<longrightarrow>
            denseForward P L' input = Inr pre \<and> forward P L' input = Inr (applyActivation L pre))"
  proof (intro exI [of _ ?pre] conjI allI impI)
    show "denseForward P L input = Inr ?pre" by (rule run)
    show "forward P L input = Inr (applyActivation L ?pre)" by (rule fwd)
    show "length ?pre = outputSize" by simp
    show "length (applyActivation L ?pre) = outputSize" by (simp add: length_applyActivation)
  qed (use nan same in blast)+
qed

theorem forward_dense_unchecked_witness:
  "length (biases short_bias_layer) \<noteq> 2 \<and> length (weights surplus_layer) \<noteq> 4 * 2 \<and>
   forward (example_platform\<lparr>maxLength := 1\<rparr>) short_bias_layer (map Fin [1, 2, 3, 4]) =
     Inl RangeError \<and>
   (\<exists>pre. denseForward example_platform short_bias_layer (map Fin [1, 2, 3, 4]) = Inr pre \<and>
      forward example_platform short_bias_layer (map Fin [1, 2, 3, 4]) =
        Inr (applyActivation short_bias_layer pre) \<and>
      length (applyActivation short_bias_layer pre) = 2 \<and> pre ! 1 = NaN \<and>
      denseForward example_platform surplus_layer (map Fin [1, 2, 3, 4]) = Inr pre \<and>
      forward example_platform surplus_layer (map Fin [1, 2, 3, 4]) =
        Inr (applyActivation short_bias_layer pre))"
proof -
  have L: "type short_bias_layer = ''dense'' \<or> type short_bias_layer = ''fully_connected''"
    "inputShape short_bias_layer \<noteq> []" "last (inputShape short_bias_layer) = int 4"
    "outputShape short_bias_layer \<noteq> []" "last (outputShape short_bias_layer) = int 2"
    "(2::nat) * 4 < 2 ^ 53"
    by (simp_all add: short_bias_layer_def example_layer_fields)
  have short: "length (biases short_bias_layer) \<le> 1"
    by (simp add: short_bias_layer_def)
  have surplus: "type surplus_layer = type short_bias_layer"
    "activation surplus_layer = activation short_bias_layer"
    "inputShape surplus_layer = inputShape short_bias_layer"
    "outputShape surplus_layer = outputShape short_bias_layer"
    "take (2 * 4) (weights surplus_layer) = take (2 * 4) (weights short_bias_layer)"
    "take 2 (biases surplus_layer) = take 2 (biases short_bias_layer)"
    by (simp_all add: surplus_layer_def short_bias_layer_def example_layer_fields)
  have "forward (example_platform\<lparr>maxLength := 1\<rparr>) short_bias_layer (map Fin [1, 2, 3, 4]) =
      Inl RangeError"
    using forward_dense_unchecked [OF L, of "example_platform\<lparr>maxLength := 1\<rparr>" "map Fin [1, 2, 3, 4]"]
    by simp
  moreover have "2 \<le> maxLength example_platform"
    by (simp add: example_platform_def)
  with forward_dense_unchecked [OF L, of example_platform "map Fin [1, 2, 3, 4]"] short surplus
  have "\<exists>pre. denseForward example_platform short_bias_layer (map Fin [1, 2, 3, 4]) = Inr pre \<and>
      forward example_platform short_bias_layer (map Fin [1, 2, 3, 4]) =
        Inr (applyActivation short_bias_layer pre) \<and>
      length (applyActivation short_bias_layer pre) = 2 \<and> pre ! 1 = NaN \<and>
      denseForward example_platform surplus_layer (map Fin [1, 2, 3, 4]) = Inr pre \<and>
      forward example_platform surplus_layer (map Fin [1, 2, 3, 4]) =
        Inr (applyActivation short_bias_layer pre)"
    by auto
  ultimately show ?thesis
    by (simp add: short_bias_layer_def surplus_layer_def example_layer_fields)
qed

section \<open>The proof generator\<close>

text \<open>
  C1. For a fixed task id, sample id, number of expected layers, list of layer outputs
  and prediction, \<open>generateProof\<close> gives the same \<open>proofHash\<close> whatever engine
  instance runs it (a fresh one too) and whenever it runs: the engine and the clock are
  the only other things it can read, and the hash depends on neither. So two executions
  of one task, on any two engines and at any times, give the same \<open>proofHash\<close>.
\<close>

theorem proofHash_deterministic:
  "proofHash (generateProof P engine1 now1 tId sId n outs pred) =
     proofHash (generateProof P engine2 now2 tId sId n outs pred) \<and>
   (executeShards P clock1 now1 engine1 task = (engine1', reported1, Inr res1) \<and>
    executeShards P clock2 now2 engine2 task = (engine2', reported2, Inr res2) \<longrightarrow>
      proofHash (resultProof res1) = proofHash (resultProof res2))"
  using executeShards_replay [of P clock1 now1 engine1 task engine1' reported1 res1
      clock2 now2 engine2 engine2' reported2 res2]
  by (simp add: generateProof_def Let_def)

theorem proofHash_deterministic_witness:
  "\<exists>res1 res2.
     executeShards example_platform (\<lambda>k. real k) 5 \<lparr>layers = []\<rparr> example_task =
       (\<lparr>layers = [example_layer]\<rparr>, [Fin 1], Inr res1) \<and>
     executeShards example_platform (\<lambda>k. 2 * real k) 9 \<lparr>layers = [second_layer]\<rparr> example_task =
       (\<lparr>layers = [example_layer]\<rparr>, [Fin 1], Inr res2) \<and>
     proofHash (resultProof res1) = proofHash (resultProof res2)"
proof -
  obtain res1 where ex1:
    "executeShards example_platform (\<lambda>k. real k) 5 \<lparr>layers = []\<rparr> example_task =
       (\<lparr>layers = [example_layer]\<rparr>, [Fin 1], Inr res1)"
    using example_execute by blast
  obtain res2 where ex2:
    "executeShards example_platform (\<lambda>k. 2 * real k) 9 \<lparr>layers = [second_layer]\<rparr> example_task =
       (\<lparr>layers = [example_layer]\<rparr>, [Fin 1], Inr res2)"
    using example_execute_any by blast
  have "proofHash (resultProof res1) = proofHash (resultProof res2)"
    using proofHash_deterministic [THEN conjunct2, rule_format, OF conjI [OF ex1 ex2]] .
  with ex1 ex2
  show ?thesis by blast
qed

text \<open>
  C5. In every execution result, \<open>proofHash\<close> is the digest, in lower-case
  hexadecimal, of the text made of the task id, the sample id, the expected number of
  layers, the output hashes in order and the serialized prediction, joined by a colon;
  there is one output hash for each layer run, in the order the layers ran, each the
  digest of the bytes of that layer's output. The expected number of layers is in
  decimal digits for a count up to \<open>2\<^sup>5\<^sup>3\<close>: digits only, none of them a leading
  zero, with the count as their value.
\<close>

theorem proofHash_contents:
  assumes "executeShards P clock now this task = (this', reported, Inr res)"
  shows "proofHash (resultProof res) =
      lowercase_hex (digest P (encode P
        (taskId task @ '':'' @ sampleId task @ '':'' @
         js_toString P (expectedLayers task) @ '':'' @
         concat (map (\<lambda>h. h @ '':'') (outputHashes (resultProof res))) @
         stringify P (resultPrediction res)))) \<and>
    outputHashes (resultProof res) =
      map (\<lambda>output. lowercase_hex (digest P (concat (map (float32_bytes P) output))))
        (layerOutputs res) \<and>
    length (layerOutputs res) = length (layers this') \<and>
    (\<exists>input. decodeInput P (inputData task) (taskInputShape task) = Inr input \<and>
       chained P input (layers this') (layerOutputs res)) \<and>
    (\<forall>n. expectedLayers task = Fin (real n) \<and> n \<le> 2 ^ 53 \<longrightarrow>
       digits_value (js_toString P (expectedLayers task)) = n \<and>
       set (js_toString P (expectedLayers task)) \<subseteq> set ''0123456789'' \<and>
       js_toString P (expectedLayers task) \<noteq> [] \<and>
       (0 < n \<longrightarrow> hd (js_toString P (expectedLayers task)) \<noteq> CHR ''0''))"
proof -
  let ?e = "loadShards this (shards task)"
  from assms obtain input where input:
    "decodeInput P (inputData task) (taskInputShape task) = Inr input"
    by (cases "decodeInput P (inputData task) (taskInputShape task)")
       (simp_all add: executeShards_def Let_def)
  from assms input obtain cur outs ts where run:
    "run_layers P clock (onProgress task) (length (layers ?e)) 0 (layers ?e) input [] [] [] =
       (reported, Inr (cur, outs, ts))"
    by (auto simp: executeShards_def Let_def split: sum.splits prod.splits)
  from run_layers_outputs [OF run] have outs: "length outs = length (layers ?e)"
    "chained P input (layers ?e) outs"
    by auto
  let ?pred = "generatePrediction P cur (case labels task of None \<Rightarrow> [] | Some ls \<Rightarrow> ls)"
  from assms input run have this': "this' = ?e"
    and res: "res = \<lparr>layerOutputs = outs, resultPrediction = ?pred,
        resultProof = generateProof P ?e now (taskId task) (sampleId task) (expectedLayers task) outs ?pred,
        totalMs = clock (2 * length (layers ?e) + 1) - clock 0, layerMs = ts\<rparr>"
    by (auto simp: executeShards_def Let_def)
  have digits: "digits_value (js_toString P (expectedLayers task)) = n \<and>
       set (js_toString P (expectedLayers task)) \<subseteq> set ''0123456789'' \<and>
       js_toString P (expectedLayers task) \<noteq> [] \<and>
       (0 < n \<longrightarrow> hd (js_toString P (expectedLayers task)) \<noteq> CHR ''0'')"
    if "expectedLayers task = Fin (real n)" "n \<le> 2 ^ 53" for n
    unfolding that(1) js_toString_nat [OF that(2)]
    using nat_toString_digits [of n] nat_toString_leading [of n]
    by (simp add: digits_value_nat_toString)
  have hashes: "map (hashTensor P) outs =
      map (\<lambda>output. lowercase_hex (digest P (concat (map (float32_bytes P) output)))) outs"
    by (simp add: hashTensor_def hex_lowercase)
  from outs input digits show ?thesis
    unfolding res this'
    by (simp add: generateProof_proofHash generateProof_outputHashes hashes sha256_def
        hex_lowercase)
qed

theorem proofHash_contents_witness:
  "\<exists>res. executeShards example_platform (\<lambda>k. real k) 0 \<lparr>layers = []\<rparr> example_task =
      (\<lparr>layers = [example_layer]\<rparr>, [Fin 1], Inr res) \<and>
     outputHashes (resultProof res) = [''0307''] \<and>
     proofHash (resultProof res) =
       lowercase_hex (digest example_platform (encode example_platform
         (''t1:s1:1:0307:'' @ stringify example_platform (resultPrediction res))))"
proof -
  obtain res where ex:
    "executeShards example_platform (\<lambda>k. real k) 0 \<lparr>layers = []\<rparr> example_task =
      (\<lparr>layers = [example_layer]\<rparr>, [Fin 1], Inr res)"
    and outs: "layerOutputs res = [[Fin (13002343 / 4194304), Fin (14889779 / 2097152)]]"
    using example_execute by blast
  have task: "taskId example_task = ''t1''" "sampleId example_task = ''s1''"
    "expectedLayers example_task = Fin 1"
    by (simp_all add: example_task_def)
  note contents = proofHash_contents [OF ex]
  from contents have "outputHashes (resultProof res) =
      map (\<lambda>output. lowercase_hex (digest example_platform
             (concat (map (float32_bytes example_platform) output)))) (layerOutputs res)"
    by blast
  then have hashes: "outputHashes (resultProof res) = [''0307'']"
    by (simp only: outs example_hash)
  from contents have "proofHash (resultProof res) =
      lowercase_hex (digest example_platform (encode example_platform
        (taskId example_task @ '':'' @ sampleId example_task @ '':'' @
         js_toString example_platform (expectedLayers example_task) @ '':'' @
         concat (map (\<lambda>h. h @ '':'') (outputHashes (resultProof res))) @
         stringify example_platform (resultPrediction res))))"
    by blast
  with ex hashes show ?thesis
    by (simp add: task int_digits_def nat_toString.simps [of 10] digit_char_def)
qed

section \<open>The shard runner\<close>

text \<open>
  C4. The claim is that the layers run in the order of the shards' \<open>index\<close>, whatever
  the order of the shards in the array. \<open>loadShards\<close> takes the shards in array order
  and never reads \<open>index\<close>: two shards given deepest first run deepest first, while
  \<open>mergeShards\<close> of the sharding utility puts the same array into index order.
\<close>

theorem loadShards_array_order:
  "layers (loadShards this [second_shard, example_shard]) = [second_layer, example_layer] \<and>
   layers (loadShards this [example_shard, second_shard]) = [example_layer, second_layer] \<and>
   mergeShards [second_shard, example_shard] = [example_layer, second_layer]"
  by (simp add: loadShards_layers mergeShards_def example_shard_def second_shard_def
      example_layer_stays second_layer_stays)



text \<open>
  C10. \<open>decodeInput\<close> never reads the shape it is given: any two shapes give the same
  result for the same data, and the number of decoded elements is a quarter of the
  number of bytes that \<^verbatim>\<open>atob\<close> returns, whatever the declared shape says.
\<close>

theorem decodeInput_ignores_shape:
  "decodeInput P data shape1 = decodeInput P data shape2 \<and>
   (decodeInput P data shape1 = Inr tensor \<longrightarrow>
      (\<exists>binaryString. atob P (strip_data_url data) = Some binaryString \<and>
         length binaryString = 4 * length tensor))"
  by (auto simp: decodeInput_def Float32Array_of_buffer_def length_chunks4
      split: option.splits if_splits)

theorem decodeInput_ignores_shape_witness:
  "decodeInput example_platform (inputData example_task) [1, 784] = Inr (map Fin [1, 2, 3, 4]) \<and>
   decodeInput example_platform (inputData example_task) [1, 784] =
     decodeInput example_platform (inputData example_task) [1, 4] \<and>
   (\<exists>binaryString. atob example_platform (strip_data_url (inputData example_task)) = Some binaryString \<and>
      length binaryString = 4 * length (map Fin [1, 2, 3, 4 :: real]))"
  using decodeInput_ignores_shape [of example_platform "inputData example_task" "[1, 784]" "[1, 4]"
      "map Fin [1, 2, 3, 4]"] example_decode [of "[1, 784]"]
  by simp

section \<open>The session\<close>

text \<open>
  C6. A session is completed exactly when its state is \<open>success\<close> and a captcha token
  is there; a session in state \<open>success\<close> whose token is \<^verbatim>\<open>null\<close> is not completed.
\<close>

theorem isCompleted_iff:
  "isCompleted this = (state this = Success \<and> (\<exists>token. captchaToken this = Some token)) \<and>
   \<not> isCompleted (this\<lparr>state := Success, captchaToken := None\<rparr>)"
  by (auto simp: isCompleted_def)

text \<open>
  C7. When the state of a session changes, every listener subscribed to it is called
  once with the new state, in the order of subscription, within the assignment itself;
  a listener that throws has its exception printed to the console and the next
  listener is called all the same; no exception leaves the setter, and the session is in
  the new state.
\<close>

theorem state_change_notifies_all:
  assumes "stateListeners s0 = []" and "distinct ls" and "state s0 \<noteq> newState"
  shows "set_state cbs newState (foldl onStateChange s0 ls) W =
      (Inr (), (foldl onStateChange s0 ls)\<lparr>state := newState\<rparr>,
       foldl (listener_step cbs newState) W ls) \<and>
    notified (foldl (listener_step cbs newState) W ls) = notified W @ map (\<lambda>l. (l, newState)) ls"
proof -
  have s: "foldl onStateChange s0 ls = s0\<lparr>stateListeners := ls\<rparr>"
    using subscribe_all [of ls s0] assms(1,2) by simp
  show ?thesis
    using assms(3) by (simp add: s set_state_def notifyStateChange_def notify_loop notified_steps)
qed

theorem state_change_notifies_all_witness:
  "set_state example_callbacks Processing
      (foldl onStateChange (CaptchaSession ''sid'' ''tok'' 1000 0) [0, 1, 2])
      \<lparr>console = [], notified = [], user = 0\<rparr> =
    (Inr (),
     (CaptchaSession ''sid'' ''tok'' 1000 0)\<lparr>state := Processing, stateListeners := [0, 1, 2]\<rparr>,
     \<lparr>console = [''boom''], notified = [(0, Processing), (1, Processing), (2, Processing)],
      user = 3\<rparr>)"
proof -
  let ?s0 = "CaptchaSession ''sid'' ''tok'' 1000 0"
  have "stateListeners ?s0 = []" "distinct [0, 1, 2 :: nat]" "state ?s0 \<noteq> Processing"
    by (simp_all add: CaptchaSession_def)
  from state_change_notifies_all [OF this, of example_callbacks "\<lparr>console = [], notified = [], user = 0\<rparr>"]
  show ?thesis
    by (simp add: listener_step_def example_callbacks_def onStateChange_def CaptchaSession_def)
qed

section \<open>The wait for the verification\<close>

text \<open>
  C9. The claim is that the wait is over by its deadline, the time that remained to the
  session when the wait began. The timeout callback runs after that time (1000 ms here)
  and rejects the promise when the session is not completed. But when the session is
  completed after the last poll and before the deadline (polls from 100 to 900, the
  token stored at 950, the timeout at 1000), the callback cancels the polling, finds
  the session completed and settles nothing: no callback is left, and the promise stays
  pending whatever runs later.
\<close>

theorem wait_never_settles:
  "snd (waitForVerification (Some verifying_session) 0) = 1000 \<and>
   sorted (map fst late_schedule) \<and> list_all (on_time 0 1000) late_schedule \<and>
   (\<forall>later. promise (foldl step
       (foldl step (fst (waitForVerification (Some verifying_session) 0)) late_schedule) later)
     = Pending)"
proof -
  have "snd (waitForVerification (Some verifying_session) 0) = 1000"
    by (simp add: waitForVerification_def timeoutDelay_def getTimeRemaining_def
        verifying_session_def CaptchaSession_def)
  moreover have "sorted (map fst late_schedule)" "list_all (on_time 0 1000) late_schedule"
    by (simp_all add: late_schedule_def)
  moreover have "promise (foldl step
       (foldl step (fst (waitForVerification (Some verifying_session) 0)) late_schedule) later)
     = Pending" for later
    using stuck [of "\<lparr>session = Some verified_session, promise = Pending, checkComplete = False,
        timeoutArmed = False\<rparr>" later]
    by (simp add: late_run)
  ultimately show ?thesis by blast
qed

end
